theory Spec2Isabelle
  imports Complex_Main "HOL-Library.Word" "HOL-Library.Multiset" "HOL-Library.Product_Lexorder"
begin

section \<open>Status codes and identities\<close>

text \<open>
  \<open>OLAPStatus\<close> is the engine's status enumeration. The codes that the functions
  below return by name are constructors of their own; \<open>OLAP_ERR_META_ITERATE\<close> is the
  status of a traversal of the metadata store that its callback stopped, and any
  other status of a collaborator whose code is elsewhere is \<open>OLAP_ERR_OTHER n\<close>.
\<close>

datatype OLAPStatus =
    OLAP_SUCCESS
  | OLAP_ERR_INVALID_CLUSTER_INFO
  | OLAP_ERR_OS_ERROR
  | OLAP_ERR_IO_ERROR
  | OLAP_ERR_PUSH_TRANSACTION_ALREADY_EXIST
  | OLAP_ERR_META_ITERATE
  | OLAP_ERR_OTHER int

datatype Status = Status_OK | Status_Error string

text \<open>A \<open>TabletInfo\<close> is the pair (tablet id, schema hash); its order is lexicographic.\<close>

type_synonym TabletInfo = "int \<times> int"

section \<open>Rowsets, tablets and the two managers\<close>

datatype RowsetStatePB = PREPARED | COMMITTED | VISIBLE

record RowsetMeta =
  rowset_id :: int
  rs_tablet_id :: int
  rs_tablet_schema_hash :: int
  rowset_state :: RowsetStatePB
  partition_id :: int
  txn_id :: int
  load_id :: int
  version :: "int \<times> int"

text \<open>
  A \<open>Rowset\<close> object holds the meta it was made from; \<open>in_use\<close> is what the object
  reports about outside references.
\<close>

record Rowset =
  rs_rowset_meta :: RowsetMeta
  in_use :: bool

text \<open>
  A \<open>Tablet\<close> as the tablet manager holds it: its identity, its schema, the path of the
  volume that owns it, and its rowset set, a set of rowsets. The tablet directory maps
  a tablet's identity to the tablet; the transaction manager maps (partition id,
  transaction id) to the rowsets registered per tablet.
\<close>

record Tablet =
  tablet_id :: int
  schema_hash :: int
  tablet_schema :: string
  tablet_data_dir :: string
  inc_rowsets :: "Rowset set"

type_synonym TabletManager = "TabletInfo \<rightharpoonup> Tablet"

type_synonym TxnManager = "(int \<times> int) \<rightharpoonup> (TabletInfo \<rightharpoonup> Rowset)"

text \<open>
  Modelled from the spec: \<open>TabletManager::get_tablet\<close> is not among the sources. The
  spec: callers "resolve the owning Tablet in the directory", and an entry that does
  not resolve is skipped.
\<close>

definition get_tablet :: "TabletManager \<Rightarrow> int \<Rightarrow> int \<Rightarrow> Tablet option" where
  "get_tablet tm tid hash = tm (tid, hash)"

section \<open>Volumes and the store map\<close>

text \<open>
  An \<open>OlapMeta\<close> is the metadata store of one volume: the flag that says the legacy
  conversion is finished, the legacy headers (under \<open>OLD_HEADER_PREFIX\<close>), the
  tablet metas (under \<open>HEADER_PREFIX\<close>), both keyed by tablet identity, and the rowset
  metas keyed by rowset id. Values are the serialized strings; each family is the
  list of its entries in the order a traversal yields them.
\<close>

record OlapMeta =
  tablet_convert_finished :: bool
  old_headers :: "(TabletInfo \<times> string) list"
  headers :: "(TabletInfo \<times> string) list"
  rowset_metas :: "(int \<times> string) list"

text \<open>
  A \<open>DataDir\<close> is one volume. \<open>cluster_id\<close> is an \<open>int32_t\<close> that is only ever
  compared, with \<open>-1\<close> for "unset". \<open>tablet_set\<close> lists the tablets the volume owns and
  \<open>meta\<close> is its metadata store. The engine's \<open>_store_map\<close> is a \<open>std::map\<close> from path
  to volume; it is modelled as the list of its entries in iteration order.
\<close>

record DataDir =
  path :: string
  is_used :: bool
  cluster_id :: int
  tablet_set :: "TabletInfo list"
  meta :: OlapMeta

record StorageEngine =
  store_map :: "(string \<times> DataDir) list"
  effective_cluster_id :: int
  is_all_cluster_id_exist :: bool
  is_drop_tables :: bool
  min_percentage_of_error_disk :: "32 word"

subsection \<open>Cluster-id reconciliation\<close>

text \<open>
  \<open>StorageEngine::_judge_and_update_effective_cluster_id\<close>, branch for branch.
\<close>

definition judge_and_update_effective_cluster_id ::
  "int \<Rightarrow> StorageEngine \<Rightarrow> OLAPStatus \<times> StorageEngine" where
  "judge_and_update_effective_cluster_id cid e =
     (if cid = -1 \<and> effective_cluster_id e = -1 then (OLAP_SUCCESS, e)
      else if cid \<noteq> -1 \<and> effective_cluster_id e = -1
        then (OLAP_SUCCESS, e\<lparr>effective_cluster_id := cid\<rparr>)
      else if cid = -1 \<and> effective_cluster_id e \<noteq> -1 then (OLAP_SUCCESS, e)
      else if cid \<noteq> effective_cluster_id e then (OLAP_ERR_INVALID_CLUSTER_INFO, e)
      else (OLAP_SUCCESS, e))"

text \<open>
  Modelled from the spec: \<open>DataDir::set_cluster_id\<close> is defined in
  \<open>data_dir.cpp\<close>, which is not among the sources. The spec says of it that the
  effective id "is written back to all volumes", after which they report it.
\<close>

definition DataDir_set_cluster_id :: "int \<Rightarrow> DataDir \<Rightarrow> Status \<times> DataDir" where
  "DataDir_set_cluster_id cid d = (Status_OK, d\<lparr>cluster_id := cid\<rparr>)"

text \<open>
  The loop of \<open>StorageEngine::set_cluster_id\<close>: \<open>RETURN_IF_ERROR\<close> leaves the loop
  at the first volume whose write fails, with the volumes before it already written.
\<close>

fun set_cluster_id_stores ::
  "int \<Rightarrow> (string \<times> DataDir) list \<Rightarrow> Status \<times> (string \<times> DataDir) list" where
  "set_cluster_id_stores cid [] = (Status_OK, [])"
| "set_cluster_id_stores cid ((p, d) # rest) =
     (case DataDir_set_cluster_id cid d of
        (Status_OK, d') \<Rightarrow>
          (case set_cluster_id_stores cid rest of (st, rest') \<Rightarrow> (st, (p, d') # rest'))
      | (err, d') \<Rightarrow> (err, (p, d') # rest))"

definition set_cluster_id :: "int \<Rightarrow> StorageEngine \<Rightarrow> Status \<times> StorageEngine" where
  "set_cluster_id cid e =
     (case set_cluster_id_stores cid (store_map e) of
        (Status_OK, m) \<Rightarrow>
          (Status_OK, e\<lparr>store_map := m, effective_cluster_id := cid,
                         is_all_cluster_id_exist := True\<rparr>)
      | (err, m) \<Rightarrow> (err, e\<lparr>store_map := m\<rparr>))"

text \<open>
  The first loop of \<open>StorageEngine::check_all_root_path_cluster_id\<close>. Its state is the
  local \<open>cluster_id\<close> and the member \<open>_is_all_cluster_id_exist\<close>; the member keeps
  what the loop wrote to it also when the loop returns the error.
\<close>

fun collect_cluster_id ::
  "(string \<times> DataDir) list \<Rightarrow> int \<Rightarrow> bool \<Rightarrow> OLAPStatus \<times> int \<times> bool" where
  "collect_cluster_id [] cid all_exist = (OLAP_SUCCESS, cid, all_exist)"
| "collect_cluster_id ((p, d) # rest) cid all_exist =
     (let tmp_cluster_id = cluster_id d in
      if tmp_cluster_id = -1 then collect_cluster_id rest cid False
      else if tmp_cluster_id = cid then collect_cluster_id rest cid all_exist
      else if cid = -1 then collect_cluster_id rest tmp_cluster_id all_exist
      else (OLAP_ERR_INVALID_CLUSTER_INFO, cid, all_exist))"

definition check_all_root_path_cluster_id :: "StorageEngine \<Rightarrow> OLAPStatus \<times> StorageEngine" where
  "check_all_root_path_cluster_id e =
     (case collect_cluster_id (store_map e) (-1) (is_all_cluster_id_exist e) of
        (st, cid, all_exist) \<Rightarrow>
          (let e1 = e\<lparr>is_all_cluster_id_exist := all_exist\<rparr> in
           if st \<noteq> OLAP_SUCCESS then (st, e1)
           else
             (case judge_and_update_effective_cluster_id cid e1 of
                (res, e2) \<Rightarrow>
                  if res \<noteq> OLAP_SUCCESS then (res, e2)
                  else if effective_cluster_id e2 \<noteq> -1 \<and> \<not> is_all_cluster_id_exist e2
                    then (res, snd (set_cluster_id (effective_cluster_id e2) e2))
                  else (res, e2))))"

text \<open>The cluster ids the volumes report, in store-map order.\<close>

definition stored_cluster_ids :: "StorageEngine \<Rightarrow> int list" where
  "stored_cluster_ids e = map (\<lambda>(p, d). cluster_id d) (store_map e)"

subsection \<open>Disk-health pass\<close>

text \<open>
  \<open>StorageEngine::_used_disk_not_enough\<close> on \<open>uint32_t\<close>: the product wraps and the
  division is unsigned.
\<close>

definition used_disk_not_enough :: "StorageEngine \<Rightarrow> 32 word \<Rightarrow> 32 word \<Rightarrow> bool" where
  "used_disk_not_enough e unused_num total_num =
     (total_num = 0 \<or> unused_num * 100 div total_num > min_percentage_of_error_disk e)"

text \<open>
  Modelled from the spec: \<open>DataDir::clear_tablets\<close> (\<open>data_dir.cpp\<close>) and
  \<open>TabletManager::drop_tablets_on_error_root_path\<close> (\<open>tablet_manager.cpp\<close>) are not
  among the sources. The spec: the tablets a failing volume owned "are removed from
  the shared directory (not deleted on disk)".
\<close>

definition clear_tablets :: "DataDir \<Rightarrow> TabletInfo list \<Rightarrow> DataDir \<times> TabletInfo list" where
  "clear_tablets d tablet_info_vec = (d\<lparr>tablet_set := []\<rparr>, tablet_info_vec @ tablet_set d)"

definition drop_tablets_on_error_root_path :: "TabletInfo list \<Rightarrow> TabletManager \<Rightarrow> TabletManager" where
  "drop_tablets_on_error_root_path tablet_info_vec tm = fold (\<lambda>ti m. m(ti := None)) tablet_info_vec tm"

text \<open>
  The loop of \<open>StorageEngine::_delete_tables_on_unused_root_path\<close>. It counts every
  volume in \<open>total_root_path_num\<close> and clears the tablets of the unused ones; the
  source's loop body has no statement that changes \<open>unused_root_path_num\<close>, so the
  loop does not carry it.
\<close>

fun clear_unused_stores ::
  "(string \<times> DataDir) list \<Rightarrow> TabletInfo list \<Rightarrow> 32 word
   \<Rightarrow> (string \<times> DataDir) list \<times> TabletInfo list \<times> 32 word" where
  "clear_unused_stores [] tablet_info_vec total_root_path_num =
     ([], tablet_info_vec, total_root_path_num)"
| "clear_unused_stores ((p, d) # rest) tablet_info_vec total_root_path_num =
     (if is_used d
      then (case clear_unused_stores rest tablet_info_vec (total_root_path_num + 1) of
              (rest', v, t) \<Rightarrow> ((p, d) # rest', v, t))
      else (case clear_tablets d tablet_info_vec of
              (d', vec') \<Rightarrow>
                (case clear_unused_stores rest vec' (total_root_path_num + 1) of
                   (rest', v, t) \<Rightarrow> ((p, d') # rest', v, t))))"

text \<open>\<open>LOG(FATAL)\<close> followed by \<open>exit(0)\<close> ends the process; otherwise the pass returns.\<close>

datatype 'a run = Process_exit int | Returns 'a

definition delete_tables_on_unused_root_path ::
  "StorageEngine \<Rightarrow> TabletManager \<Rightarrow> (StorageEngine \<times> TabletManager) run" where
  "delete_tables_on_unused_root_path e tm =
     (let unused_root_path_num = 0 in
      case clear_unused_stores (store_map e) [] 0 of
        (m, tablet_info_vec, total_root_path_num) \<Rightarrow>
          (let e1 = e\<lparr>store_map := m\<rparr> in
           if used_disk_not_enough e1 unused_root_path_num total_root_path_num
           then Process_exit 0
           else
             (let e2 = (if tablet_info_vec \<noteq> [] then e1\<lparr>is_drop_tables := True\<rparr> else e1)
              in Returns (e2, drop_tablets_on_error_root_path tablet_info_vec tm))))"

text \<open>
  The fraction the claim speaks of, computed as \<open>_used_disk_not_enough\<close> would compute
  it from the number of volumes that are not used and the number of all volumes.
\<close>

definition unused_store_count :: "StorageEngine \<Rightarrow> nat" where
  "unused_store_count e = length (filter (\<lambda>(p, d). \<not> is_used d) (store_map e))"

definition unusable_fraction_exceeds :: "StorageEngine \<Rightarrow> bool" where
  "unusable_fraction_exceeds e =
     (unused_store_count e * 100 div length (store_map e) > unat (min_percentage_of_error_disk e))"

section \<open>Compaction scheduling\<close>

datatype CompactionType = BASE_COMPACTION | CUMULATIVE_COMPACTION

text \<open>
  What \<open>_find_best_tablet_to_compaction\<close> reads of a tablet (an \<open>OLAPTablePtr\<close> of the
  engine's \<open>_tablet_map\<close>): the path hash of its store, its flags, the time of its last
  compaction failure in milliseconds (\<open>int64_t\<close>), whether each of its two compaction
  locks is held by someone else at the moment, and its two scores (\<open>uint32_t\<close>).
\<close>

record OLAPTable =
  table_tablet_id :: int
  table_schema_hash :: int
  store_path_hash :: int
  table_is_used :: bool
  is_loaded :: bool
  last_compaction_failure_time :: "64 word"
  cumulative_lock_held :: bool
  base_compaction_lock_held :: bool
  base_compaction_score :: "32 word"
  cumulative_compaction_score :: "32 word"

text \<open>
  What the selection takes from outside the engine's members: the clock
  (\<open>UnixMillis()\<close>), \<open>config::min_compaction_failure_interval_sec\<close>, and the
  eligibility predicate \<open>_can_do_compaction\<close>, whose definition is not in the file.
  The clock gives \<open>int64_t\<close> milliseconds and the configured interval is an \<open>int64_t\<close>
  number of seconds.
\<close>

record compaction_env =
  now_ms :: "64 word"
  min_compaction_failure_interval_sec :: "64 word"
  can_do_compaction :: "OLAPTable \<Rightarrow> bool"

text \<open>A try-lock takes the lock when it is free; the release frees it again.\<close>

definition try_cumulative_lock :: "OLAPTable \<Rightarrow> bool \<times> OLAPTable" where
  "try_cumulative_lock t =
     (if cumulative_lock_held t then (False, t) else (True, t\<lparr>cumulative_lock_held := True\<rparr>))"

definition release_cumulative_lock :: "OLAPTable \<Rightarrow> OLAPTable" where
  "release_cumulative_lock t = t\<lparr>cumulative_lock_held := False\<rparr>"

definition try_base_compaction_lock :: "OLAPTable \<Rightarrow> bool \<times> OLAPTable" where
  "try_base_compaction_lock t =
     (if base_compaction_lock_held t then (False, t)
      else (True, t\<lparr>base_compaction_lock_held := True\<rparr>))"

definition release_base_compaction_lock :: "OLAPTable \<Rightarrow> OLAPTable" where
  "release_base_compaction_lock t = t\<lparr>base_compaction_lock_held := False\<rparr>"

text \<open>
  The body of the inner loop of \<open>_find_best_tablet_to_compaction\<close>, one \<open>continue\<close> per
  guard, in the source's order. The accumulator is (\<open>highest_score\<close>, \<open>best_tablet\<close>).

  The backoff guard is \<open>now - last_compaction_failure_time() <=
  config::min_compaction_failure_interval_sec * 1000\<close>, all of it in \<open>int64_t\<close>: the
  difference and the product are taken in 64 bits, where they wrap around, and the
  two results are compared as signed numbers. (C++ leaves the overflow of a signed
  operation undefined; the machine's two's-complement result is what is modelled.)
\<close>

definition visit_table ::
  "compaction_env \<Rightarrow> CompactionType \<Rightarrow> int \<Rightarrow> OLAPTable
   \<Rightarrow> 32 word \<times> OLAPTable option \<Rightarrow> 32 word \<times> OLAPTable option" where
  "visit_table env compaction_type path_hash table_ptr acc =
     (case acc of (highest_score, best_tablet) \<Rightarrow>
      if store_path_hash table_ptr \<noteq> path_hash \<or> \<not> table_is_used table_ptr
         \<or> \<not> is_loaded table_ptr \<or> \<not> can_do_compaction env table_ptr
      then acc
      else if sint (now_ms env - last_compaction_failure_time table_ptr)
                \<le> sint (min_compaction_failure_interval_sec env * 1000)
      then acc
      else
        (case (if compaction_type = CUMULATIVE_COMPACTION
               then (case try_cumulative_lock table_ptr of
                       (False, t) \<Rightarrow> (False, t)
                     | (True, t) \<Rightarrow> (True, release_cumulative_lock t))
               else (True, table_ptr)) of
           (False, t1) \<Rightarrow> acc
         | (True, t1) \<Rightarrow>
             (case (if compaction_type = BASE_COMPACTION
                    then (case try_base_compaction_lock t1 of
                            (False, t) \<Rightarrow> (False, t)
                          | (True, t) \<Rightarrow> (True, release_base_compaction_lock t))
                    else (True, t1)) of
                (False, t2) \<Rightarrow> acc
              | (True, t2) \<Rightarrow>
                  (let table_score =
                         (if compaction_type = BASE_COMPACTION then base_compaction_score t2
                          else if compaction_type = CUMULATIVE_COMPACTION
                            then cumulative_compaction_score t2
                          else 0)
                   in if table_score > highest_score then (table_score, Some t2) else acc))))"

text \<open>
  \<open>_tablet_map\<close> maps a tablet id to the tablets of that id (\<open>table_arr\<close>); it is the list
  of its entries in iteration order. The two nested loops start from
  \<open>highest_score = 0\<close> and no best tablet.
\<close>

definition find_best_tablet_to_compaction ::
  "compaction_env \<Rightarrow> CompactionType \<Rightarrow> int \<Rightarrow> (int \<times> OLAPTable list) list
   \<Rightarrow> OLAPTable option" where
  "find_best_tablet_to_compaction env compaction_type path_hash tablet_map =
     snd (fold (\<lambda>table_ins acc.
                  fold (visit_table env compaction_type path_hash) (snd table_ins) acc)
            tablet_map (0, None))"

text \<open>
  The vocabulary of the claims: a tablet is in its failure backoff when the guard of
  the loop, computed as the loop computes it, holds of it; it is a candidate when no
  guard of the loop excludes it, and its score is the one of the compaction kind.
\<close>

definition in_failure_backoff :: "compaction_env \<Rightarrow> OLAPTable \<Rightarrow> bool" where
  "in_failure_backoff env t =
     (sint (now_ms env - last_compaction_failure_time t)
        \<le> sint (min_compaction_failure_interval_sec env * 1000))"

definition compaction_lock_held :: "CompactionType \<Rightarrow> OLAPTable \<Rightarrow> bool" where
  "compaction_lock_held compaction_type t =
     (case compaction_type of
        CUMULATIVE_COMPACTION \<Rightarrow> cumulative_lock_held t
      | BASE_COMPACTION \<Rightarrow> base_compaction_lock_held t)"

definition candidate :: "compaction_env \<Rightarrow> CompactionType \<Rightarrow> int \<Rightarrow> OLAPTable \<Rightarrow> bool" where
  "candidate env compaction_type path_hash t =
     (store_path_hash t = path_hash \<and> table_is_used t \<and> is_loaded t \<and> can_do_compaction env t
      \<and> \<not> in_failure_backoff env t \<and> \<not> compaction_lock_held compaction_type t)"

definition compaction_score :: "CompactionType \<Rightarrow> OLAPTable \<Rightarrow> 32 word" where
  "compaction_score compaction_type t =
     (case compaction_type of
        BASE_COMPACTION \<Rightarrow> base_compaction_score t
      | CUMULATIVE_COMPACTION \<Rightarrow> cumulative_compaction_score t)"

definition candidates ::
  "compaction_env \<Rightarrow> CompactionType \<Rightarrow> int \<Rightarrow> (int \<times> OLAPTable list) list \<Rightarrow> OLAPTable list" where
  "candidates env compaction_type path_hash tablet_map =
     filter (candidate env compaction_type path_hash) (concat (map snd tablet_map))"

section \<open>Garbage collection of retired artifacts\<close>

text \<open>
  A \<open>SegmentGroup\<close> is a retired index artifact; \<open>segment_group_id\<close> stands for the
  pointer that keys \<open>_gc_files\<close>, and \<open>is_in_use\<close> is what the object reports. Both
  registries are lists of their entries in iteration order. The files on disk are a
  set of paths.
\<close>

record SegmentGroup =
  segment_group_id :: int
  is_in_use :: bool

text \<open>
  Modelled from the spec: \<open>remove_files\<close> (\<open>utils.cpp\<close>) is not among the sources. The
  spec: a sweep must "delete its recorded files".
\<close>

definition remove_files :: "string list \<Rightarrow> string set \<Rightarrow> string set" where
  "remove_files files disk = disk - set files"

text \<open>
  \<open>StorageEngine::start_delete_unused_index\<close>. An artifact in use is stepped over
  (\<open>++it\<close>); any other is deleted, its files are removed, and the loop goes on from the
  iterator that \<open>erase\<close> returns (\<open>it = _gc_files.erase(it)\<close>), which is the next entry.
\<close>

fun start_delete_unused_index ::
  "(SegmentGroup \<times> string list) list \<Rightarrow> string set
   \<Rightarrow> (SegmentGroup \<times> string list) list \<times> string set" where
  "start_delete_unused_index [] disk = ([], disk)"
| "start_delete_unused_index ((sg, files) # rest) disk =
     (if is_in_use sg
      then (case start_delete_unused_index rest disk of
              (gc_files, disk') \<Rightarrow> ((sg, files) # gc_files, disk'))
      else start_delete_unused_index rest (remove_files files disk))"

text \<open>
  \<open>StorageEngine::start_delete_unused_rowset\<close>. A rowset in use is stepped over. For any
  other the source calls \<open>remove()\<close> and then \<open>_unused_rowsets.erase(it)\<close> without
  assigning the result: \<open>erase\<close> invalidates \<open>it\<close>, and the loop condition
  \<open>it != _unused_rowsets.end()\<close> that is evaluated next reads the invalidated
  iterator. C++ leaves that undefined, so the model ends there with the error, the
  registry as the \<open>erase\<close> left it, and the ids of the rowsets whose \<open>remove()\<close> ran.
  The first argument holds the entries already stepped over.
\<close>

datatype cpp_error = Invalidated_iterator_used

fun delete_unused_rowset_from ::
  "(int \<times> Rowset) list \<Rightarrow> (int \<times> Rowset) list \<Rightarrow> int list
   \<Rightarrow> (cpp_error \<times> (int \<times> Rowset) list \<times> int list) + ((int \<times> Rowset) list \<times> int list)" where
  "delete_unused_rowset_from kept [] removed = Inr (kept, removed)"
| "delete_unused_rowset_from kept ((rid, rowset) # rest) removed =
     (if in_use rowset
      then delete_unused_rowset_from (kept @ [(rid, rowset)]) rest removed
      else Inl (Invalidated_iterator_used, kept @ rest, removed @ [rid]))"

definition start_delete_unused_rowset ::
  "(int \<times> Rowset) list
   \<Rightarrow> (cpp_error \<times> (int \<times> Rowset) list \<times> int list) + ((int \<times> Rowset) list \<times> int list)" where
  "start_delete_unused_rowset unused_rowsets = delete_unused_rowset_from [] unused_rowsets []"

section \<open>Task execution\<close>

text \<open>
  An \<open>EngineTask\<close> is defined outside the engine. Its three phases return a status and
  may change the task's own state (of some type \<open>'ts\<close>) and the tablet directory;
  \<open>get_related_tablets\<close> reads the tablets the task names from its state, so the answer
  can differ after \<open>execute\<close>.
\<close>

record 'ts EngineTask =
  get_related_tablets :: "'ts \<Rightarrow> TabletInfo list"
  prepare :: "'ts \<Rightarrow> TabletManager \<Rightarrow> OLAPStatus \<times> 'ts \<times> TabletManager"
  execute :: "'ts \<Rightarrow> TabletManager \<Rightarrow> OLAPStatus \<times> 'ts \<times> TabletManager"
  finish :: "'ts \<Rightarrow> TabletManager \<Rightarrow> OLAPStatus \<times> 'ts \<times> TabletManager"

datatype task_call = PREPARE | EXECUTE | FINISH

text \<open>
  What \<open>execute_task\<close> acts on: the task's state, the tablet directory, the header
  write-locks that the executing thread holds (a multiset of tablet identities: one
  element per \<open>obtain_header_wrlock\<close> that no \<open>release_header_lock\<close> has matched yet),
  and the phases of the task invoked so far, in order. Waiting for a lock is outside
  this model: for one that another thread holds, and for one that the call itself
  holds already, which takes a task that names a tablet twice (the spec has the
  related tablets as a set).
\<close>

record 'ts task_world =
  task_state :: 'ts
  tablet_mgr :: TabletManager
  header_wrlocks :: "TabletInfo multiset"
  calls :: "task_call list"

definition obtain_header_wrlock :: "TabletInfo \<Rightarrow> TabletInfo multiset \<Rightarrow> TabletInfo multiset" where
  "obtain_header_wrlock ti locks = add_mset ti locks"

definition release_header_lock :: "TabletInfo \<Rightarrow> TabletInfo multiset \<Rightarrow> TabletInfo multiset" where
  "release_header_lock ti locks = locks - {#ti#}"

text \<open>
  The loop over the sorted \<open>tablet_infos\<close>: a tablet that \<open>get_tablet\<close> finds is pushed
  onto \<open>related_tablets\<close> and write-locked; one it does not find is skipped with a
  warning.
\<close>

fun lock_related_tablets ::
  "TabletManager \<Rightarrow> TabletInfo list \<Rightarrow> TabletInfo list \<times> TabletInfo multiset
   \<Rightarrow> TabletInfo list \<times> TabletInfo multiset" where
  "lock_related_tablets tm [] acc = acc"
| "lock_related_tablets tm (tablet_info # rest) (related_tablets, locks) =
     (case get_tablet tm (fst tablet_info) (snd tablet_info) of
        Some tablet \<Rightarrow>
          lock_related_tablets tm rest
            (related_tablets @ [tablet_info], obtain_header_wrlock tablet_info locks)
      | None \<Rightarrow> lock_related_tablets tm rest (related_tablets, locks))"

text \<open>
  The block that \<open>execute_task\<close> has twice, once around \<open>prepare\<close> and once around
  \<open>finish\<close>: get and sort the related tablets, lock those that resolve, run the phase,
  release every lock taken.
\<close>

definition run_with_related_tablets_locked ::
  "'ts EngineTask \<Rightarrow> ('ts \<Rightarrow> TabletManager \<Rightarrow> OLAPStatus \<times> 'ts \<times> TabletManager) \<Rightarrow> task_call
   \<Rightarrow> 'ts task_world \<Rightarrow> OLAPStatus \<times> 'ts task_world" where
  "run_with_related_tablets_locked task phase call w =
     (let tablet_infos = sort (get_related_tablets task (task_state w)) in
      case lock_related_tablets (tablet_mgr w) tablet_infos ([], header_wrlocks w) of
        (related_tablets, locks1) \<Rightarrow>
          (case phase (task_state w) (tablet_mgr w) of
             (status, ts', tm') \<Rightarrow>
               (status,
                \<lparr>task_state = ts', tablet_mgr = tm',
                 header_wrlocks = fold release_header_lock related_tablets locks1,
                 calls = calls w @ [call]\<rparr>)))"

definition execute_task :: "'ts EngineTask \<Rightarrow> 'ts task_world \<Rightarrow> OLAPStatus \<times> 'ts task_world" where
  "execute_task task w =
     (case run_with_related_tablets_locked task (prepare task) PREPARE w of
        (prepare_status, w1) \<Rightarrow>
          if prepare_status \<noteq> OLAP_SUCCESS then (prepare_status, w1)
          else
            (case execute task (task_state w1) (tablet_mgr w1) of
               (exec_status, ts2, tm2) \<Rightarrow>
                 (let w2 = w1\<lparr>task_state := ts2, tablet_mgr := tm2,
                                calls := calls w1 @ [EXECUTE]\<rparr>
                  in if exec_status \<noteq> OLAP_SUCCESS then (exec_status, w2)
                     else run_with_related_tablets_locked task (finish task) FINISH w2)))"

section \<open>Volume load\<close>

text \<open>
  The two singletons the load writes to: the tablet directory of
  \<open>TabletManager::instance()\<close> and the transaction map of \<open>TxnManager::instance()\<close>.
\<close>

record managers =
  tablet_manager :: TabletManager
  txn_manager :: TxnManager

text \<open>
  What the load takes from code outside \<open>storage_engine.cpp\<close> and cannot be derived
  from the spec's words, as parameters: the status of reading and of writing the
  conversion flag; the parsing of a legacy header (\<open>OLAPHeaderMessage::ParseFromString\<close>,
  \<open>None\<close> when it fails); the converter (\<open>OlapSnapshotConverter::to_new_snapshot\<close>),
  which gives a status, the new tablet meta and the pending rowset metas, both
  already serialized under their ids; the parsing of a rowset meta
  (\<open>AlphaRowsetMeta::init\<close>) and of a tablet meta; and \<open>RowsetFactory::load_rowset\<close>, which
  from a tablet's schema, its volume and a rowset meta gives a status and a rowset.
\<close>

record load_env =
  get_tablet_convert_finished_status :: OLAPStatus
  set_tablet_convert_finished_status :: OLAPStatus
  parse_olap_header :: "string \<Rightarrow> string option"
  to_new_snapshot :: "string \<Rightarrow> OLAPStatus \<times> (TabletInfo \<times> string) \<times> (int \<times> string) list"
  rowset_meta_init :: "string \<Rightarrow> RowsetMeta option"
  tablet_meta_init :: "string \<Rightarrow> Tablet option"
  load_rowset :: "string \<Rightarrow> string \<Rightarrow> RowsetMeta \<Rightarrow> OLAPStatus \<times> Rowset"

subsection \<open>The metadata store's operations\<close>

text \<open>
  Modelled from the spec: \<open>TabletMetaManager\<close>, \<open>RowsetMetaManager\<close> and \<open>OlapMeta\<close> are not
  among the sources. The spec: "a metadata key/value store per volume supporting
  point reads/writes and an ordered prefix traversal with an early-stop signal",
  where the consumer's stop "aborts that traversal" and is reported upward. A write
  replaces the value under its key or adds the key; a traversal visits the entries that
  were there when it began.
\<close>

definition put :: "'k \<Rightarrow> string \<Rightarrow> ('k \<times> string) list \<Rightarrow> ('k \<times> string) list" where
  "put k v kvs =
     (if k \<in> fst ` set kvs then map (\<lambda>(k', v'). if k' = k then (k', v) else (k', v')) kvs
      else kvs @ [(k, v)])"

definition RowsetMetaManager_save :: "int \<Rightarrow> string \<Rightarrow> OlapMeta \<Rightarrow> OLAPStatus \<times> OlapMeta" where
  "RowsetMetaManager_save rid meta_binary m =
     (OLAP_SUCCESS, m\<lparr>rowset_metas := put rid meta_binary (rowset_metas m)\<rparr>)"

definition RowsetMetaManager_remove :: "int \<Rightarrow> OlapMeta \<Rightarrow> OLAPStatus \<times> OlapMeta" where
  "RowsetMetaManager_remove rid m =
     (OLAP_SUCCESS, m\<lparr>rowset_metas := filter (\<lambda>(k, v). k \<noteq> rid) (rowset_metas m)\<rparr>)"

definition TabletMetaManager_save :: "TabletInfo \<Rightarrow> string \<Rightarrow> OlapMeta \<Rightarrow> OLAPStatus \<times> OlapMeta" where
  "TabletMetaManager_save ti meta_binary m =
     (OLAP_SUCCESS, m\<lparr>headers := put ti meta_binary (headers m)\<rparr>)"

definition TabletMetaManager_remove :: "TabletInfo \<Rightarrow> OlapMeta \<Rightarrow> OLAPStatus \<times> OlapMeta" where
  "TabletMetaManager_remove ti m =
     (OLAP_SUCCESS, m\<lparr>headers := filter (\<lambda>(k, v). k \<noteq> ti) (headers m)\<rparr>)"

fun traverse ::
  "('k \<times> string) list \<Rightarrow> ('k \<Rightarrow> string \<Rightarrow> 's \<Rightarrow> bool \<times> 's) \<Rightarrow> 's \<Rightarrow> OLAPStatus \<times> 's" where
  "traverse [] func s = (OLAP_SUCCESS, s)"
| "traverse ((k, v) # rest) func s =
     (case func k v s of
        (True, s') \<Rightarrow> traverse rest func s'
      | (False, s') \<Rightarrow> (OLAP_ERR_META_ITERATE, s'))"

subsection \<open>Cleaning and legacy conversion\<close>

text \<open>
  \<open>StorageEngine::_clean_unfinished_converting_data\<close>: both callbacks remove the entry
  they are given and return \<open>true\<close>; the statuses of the removals and of the two
  traversals are only logged.
\<close>

definition clean_unfinished_converting_data :: "DataDir \<Rightarrow> OLAPStatus \<times> DataDir" where
  "clean_unfinished_converting_data data_dir =
     (let m = meta data_dir;
          m1 = snd (traverse (headers m)
                      (\<lambda>ti value m'. (True, snd (TabletMetaManager_remove ti m'))) m);
          m2 = snd (traverse (rowset_metas m1)
                      (\<lambda>rid value m'. (True, snd (RowsetMetaManager_remove rid m'))) m1)
      in (OLAP_SUCCESS, data_dir\<lparr>meta := m2\<rparr>))"

text \<open>
  The loop of \<open>convert_tablet_func\<close> that writes the pending rowsets; it stops at the
  first save that fails.
\<close>

fun save_pending_rowsets :: "(int \<times> string) list \<Rightarrow> OlapMeta \<Rightarrow> bool \<times> OlapMeta" where
  "save_pending_rowsets [] m = (True, m)"
| "save_pending_rowsets ((rid, meta_binary) # rest) m =
     (case RowsetMetaManager_save rid meta_binary m of
        (status, m') \<Rightarrow>
          if status \<noteq> OLAP_SUCCESS then (False, m') else save_pending_rowsets rest m')"

text \<open>
  \<open>convert_tablet_func\<close> of \<open>StorageEngine::_convert_old_tablet\<close>: parse the legacy header,
  convert it, write the pending rowsets, then the tablet meta; \<open>false\<close> at the first
  failure.
\<close>

definition convert_tablet_func :: "load_env \<Rightarrow> TabletInfo \<Rightarrow> string \<Rightarrow> OlapMeta \<Rightarrow> bool \<times> OlapMeta" where
  "convert_tablet_func env ti value m =
     (case parse_olap_header env value of
        None \<Rightarrow> (False, m)
      | Some olap_header_msg \<Rightarrow>
          (case to_new_snapshot env olap_header_msg of
             (status, tablet_meta_pb, pending_rowsets) \<Rightarrow>
               if status \<noteq> OLAP_SUCCESS then (False, m)
               else
                 (case save_pending_rowsets pending_rowsets m of
                    (False, m1) \<Rightarrow> (False, m1)
                  | (True, m1) \<Rightarrow>
                      (case TabletMetaManager_save (fst tablet_meta_pb) (snd tablet_meta_pb) m1 of
                         (status2, m2) \<Rightarrow>
                           if status2 \<noteq> OLAP_SUCCESS then (False, m2) else (True, m2)))))"

definition convert_old_tablet :: "load_env \<Rightarrow> DataDir \<Rightarrow> OLAPStatus \<times> DataDir" where
  "convert_old_tablet env data_dir =
     (case traverse (old_headers (meta data_dir)) (convert_tablet_func env) (meta data_dir) of
        (convert_tablet_status, m) \<Rightarrow>
          if convert_tablet_status \<noteq> OLAP_SUCCESS
          then (convert_tablet_status, data_dir\<lparr>meta := m\<rparr>)
          else (OLAP_SUCCESS, data_dir\<lparr>meta := m\<rparr>))"

text \<open>
  Modelled from the spec: \<open>OlapMeta::set_tablet_convert_finished\<close> is not among the
  sources. The spec: "After all legacy headers convert, set the finished flag."
\<close>

definition set_tablet_convert_finished :: "load_env \<Rightarrow> DataDir \<Rightarrow> OLAPStatus \<times> DataDir" where
  "set_tablet_convert_finished env data_dir =
     (if set_tablet_convert_finished_status env \<noteq> OLAP_SUCCESS
      then (set_tablet_convert_finished_status env, data_dir)
      else (OLAP_SUCCESS, data_dir\<lparr>meta := (meta data_dir)\<lparr>tablet_convert_finished := True\<rparr>\<rparr>))"

subsection \<open>Loading rowset metas and tablets\<close>

text \<open>
  \<open>load_rowset_func\<close>: a rowset meta that does not parse is skipped; the others are
  collected in \<open>dir_rowset_metas\<close>, in traversal order.
\<close>

definition load_rowset_func :: "load_env \<Rightarrow> int \<Rightarrow> string \<Rightarrow> RowsetMeta list \<Rightarrow> bool \<times> RowsetMeta list" where
  "load_rowset_func env rid meta_str dir_rowset_metas =
     (case rowset_meta_init env meta_str of
        None \<Rightarrow> (True, dir_rowset_metas)
      | Some rowset_meta \<Rightarrow> (True, dir_rowset_metas @ [rowset_meta]))"

definition collect_rowset_metas :: "load_env \<Rightarrow> DataDir \<Rightarrow> RowsetMeta list" where
  "collect_rowset_metas env data_dir =
     snd (traverse (rowset_metas (meta data_dir)) (load_rowset_func env) [])"

text \<open>
  Modelled from the spec: \<open>TabletManager::load_tablet_from_meta\<close> is not among the
  sources. The spec: the load iterates the tablet metas, "constructing Tablet objects
  and registering them in the shared Tablet Directory; a single malformed/failed
  tablet load is skipped".
\<close>

definition load_tablet_from_meta ::
  "load_env \<Rightarrow> DataDir \<Rightarrow> int \<Rightarrow> int \<Rightarrow> string \<Rightarrow> TabletManager \<Rightarrow> OLAPStatus \<times> TabletManager" where
  "load_tablet_from_meta env data_dir tid hash value tm =
     (case tablet_meta_init env value of
        None \<Rightarrow> (OLAP_ERR_OTHER 0, tm)
      | Some tablet \<Rightarrow>
          (OLAP_SUCCESS,
           tm((tid, hash) \<mapsto> tablet\<lparr>tablet_id := tid, schema_hash := hash, tablet_data_dir := path data_dir\<rparr>)))"

text \<open>\<open>load_tablet_func\<close>: a tablet that fails to load is logged and the traversal goes on.\<close>

definition load_tablet_func :: "load_env \<Rightarrow> DataDir \<Rightarrow> TabletInfo \<Rightarrow> string \<Rightarrow> TabletManager \<Rightarrow> bool \<times> TabletManager" where
  "load_tablet_func env data_dir ti value tm =
     (case load_tablet_from_meta env data_dir (fst ti) (snd ti) value tm of
        (status, tm') \<Rightarrow> (True, tm'))"

definition load_tablets :: "load_env \<Rightarrow> DataDir \<Rightarrow> TabletManager \<Rightarrow> TabletManager" where
  "load_tablets env data_dir tm =
     snd (traverse (headers (meta data_dir)) (load_tablet_func env data_dir) tm)"

subsection \<open>Reconciliation\<close>

text \<open>
  Modelled from the spec: \<open>TxnManager::commit_txn\<close> and \<open>Tablet::add_inc_rowset\<close> are not
  among the sources. The spec on a transaction record: "keyed by (partition_id,
  transaction_id); value = mapping {tablet identity -> rowset}. Created on first
  commit registration for that key; idempotent re-registration of the same
  (transaction, tablet) pair is not an error", and "registering the same (txn_id,
  tablet) commit twice leaves exactly one entry". On a visible rowset: "attach to the
  tablet's rowset set via its normal add-rowset operation"; a rowset that is added to
  a set it is in already leaves the set as it is. Of the arguments the
  source passes to \<open>commit_txn\<close>, the volume's store, the load id and the recovery flag
  have no part in these words and are left out.
\<close>

definition commit_txn ::
  "TxnManager \<Rightarrow> int \<Rightarrow> int \<Rightarrow> int \<Rightarrow> int \<Rightarrow> Rowset \<Rightarrow> OLAPStatus \<times> TxnManager" where
  "commit_txn txns part txn tid hash rowset =
     (case txns (part, txn) of
        None \<Rightarrow> (OLAP_SUCCESS, txns((part, txn) \<mapsto> [(tid, hash) \<mapsto> rowset]))
      | Some tablets \<Rightarrow>
          (case tablets (tid, hash) of
             None \<Rightarrow> (OLAP_SUCCESS, txns((part, txn) \<mapsto> tablets((tid, hash) \<mapsto> rowset)))
           | Some r \<Rightarrow> (OLAP_ERR_PUSH_TRANSACTION_ALREADY_EXIST, txns)))"

definition add_inc_rowset :: "Rowset \<Rightarrow> Tablet \<Rightarrow> OLAPStatus \<times> Tablet" where
  "add_inc_rowset rowset tablet =
     (OLAP_SUCCESS, tablet\<lparr>inc_rowsets := insert rowset (inc_rowsets tablet)\<rparr>)"

text \<open>
  The body of the last loop of \<open>StorageEngine::_load_data_dir\<close> for one rowset meta.
  The statuses of \<open>commit_txn\<close> and \<open>add_inc_rowset\<close> only choose the log line.
\<close>

definition reconcile_rowset :: "load_env \<Rightarrow> RowsetMeta \<Rightarrow> managers \<Rightarrow> managers" where
  "reconcile_rowset env rowset_meta w =
     (case get_tablet (tablet_manager w) (rs_tablet_id rowset_meta)
             (rs_tablet_schema_hash rowset_meta) of
        None \<Rightarrow> w
      | Some tablet \<Rightarrow>
          (case load_rowset env (tablet_schema tablet) (tablet_data_dir tablet) rowset_meta of
             (create_status, rowset) \<Rightarrow>
               if create_status \<noteq> OLAP_SUCCESS then w
               else if rowset_state rowset_meta = COMMITTED then
                 (case commit_txn (txn_manager w) (partition_id rowset_meta) (txn_id rowset_meta)
                         (rs_tablet_id rowset_meta) (rs_tablet_schema_hash rowset_meta) rowset of
                    (commit_txn_status, txns) \<Rightarrow> w\<lparr>txn_manager := txns\<rparr>)
               else if rowset_state rowset_meta = VISIBLE then
                 (case add_inc_rowset rowset tablet of
                    (publish_status, tablet') \<Rightarrow>
                      w\<lparr>tablet_manager :=
                          (tablet_manager w)
                            ((rs_tablet_id rowset_meta, rs_tablet_schema_hash rowset_meta)
                               \<mapsto> tablet')\<rparr>)
               else w))"

definition reconcile_rowsets :: "load_env \<Rightarrow> RowsetMeta list \<Rightarrow> managers \<Rightarrow> managers" where
  "reconcile_rowsets env dir_rowset_metas w = fold (reconcile_rowset env) dir_rowset_metas w"

subsection \<open>The load of one volume\<close>

text \<open>
  \<open>StorageEngine::_load_data_dir\<close>. The result holds the status, the volume with its
  store as the load left it, the two managers, and which of the three conversion
  steps the load invoked, in order.
\<close>

datatype load_call =
  CLEAN_UNFINISHED_CONVERTING_DATA | CONVERT_OLD_TABLET | SET_TABLET_CONVERT_FINISHED

record load_result =
  load_status :: OLAPStatus
  loaded_dir :: DataDir
  loaded :: managers
  load_calls :: "load_call list"

definition convert_if_unfinished :: "load_env \<Rightarrow> DataDir \<Rightarrow> OLAPStatus \<times> DataDir \<times> load_call list" where
  "convert_if_unfinished env data_dir =
     (let is_tablet_convert_finished = tablet_convert_finished (meta data_dir) in
      if \<not> is_tablet_convert_finished then
        (case clean_unfinished_converting_data data_dir of
           (clean_status, d1) \<Rightarrow>
             (case convert_old_tablet env d1 of
                (res, d2) \<Rightarrow>
                  if res \<noteq> OLAP_SUCCESS
                  then (res, d2, [CLEAN_UNFINISHED_CONVERTING_DATA, CONVERT_OLD_TABLET])
                  else
                    (case set_tablet_convert_finished env d2 of
                       (res2, d3) \<Rightarrow>
                         (res2, d3,
                          [CLEAN_UNFINISHED_CONVERTING_DATA, CONVERT_OLD_TABLET,
                           SET_TABLET_CONVERT_FINISHED]))))
      else (OLAP_SUCCESS, data_dir, []))"

definition load_data_dir :: "load_env \<Rightarrow> DataDir \<Rightarrow> managers \<Rightarrow> load_result" where
  "load_data_dir env data_dir w =
     (if get_tablet_convert_finished_status env \<noteq> OLAP_SUCCESS
      then \<lparr>load_status = get_tablet_convert_finished_status env, loaded_dir = data_dir,
            loaded = w, load_calls = []\<rparr>
      else
        (case convert_if_unfinished env data_dir of
           (res, d, steps) \<Rightarrow>
             if res \<noteq> OLAP_SUCCESS
             then \<lparr>load_status = res, loaded_dir = d, loaded = w, load_calls = steps\<rparr>
             else
               (let dir_rowset_metas = collect_rowset_metas env d;
                    w1 = w\<lparr>tablet_manager := load_tablets env d (tablet_manager w)\<rparr>
                in \<lparr>load_status = OLAP_SUCCESS, loaded_dir = d,
                     loaded = reconcile_rowsets env dir_rowset_metas w1,
                     load_calls = steps\<rparr>)))"

text \<open>
  The vocabulary of the claims: the identity of the tablet a rowset meta belongs to,
  the transaction key it carries, the rowset the factory makes of it for a tablet,
  and whether that succeeds.
\<close>

definition owner :: "RowsetMeta \<Rightarrow> TabletInfo" where
  "owner rowset_meta = (rs_tablet_id rowset_meta, rs_tablet_schema_hash rowset_meta)"

definition txn_key :: "RowsetMeta \<Rightarrow> int \<times> int" where
  "txn_key rowset_meta = (partition_id rowset_meta, txn_id rowset_meta)"

definition rowset_of :: "load_env \<Rightarrow> Tablet \<Rightarrow> RowsetMeta \<Rightarrow> Rowset" where
  "rowset_of env tablet rowset_meta =
     snd (load_rowset env (tablet_schema tablet) (tablet_data_dir tablet) rowset_meta)"

definition rowset_loads :: "load_env \<Rightarrow> Tablet \<Rightarrow> RowsetMeta \<Rightarrow> bool" where
  "rowset_loads env tablet rowset_meta =
     (fst (load_rowset env (tablet_schema tablet) (tablet_data_dir tablet) rowset_meta) = OLAP_SUCCESS)"


definition txn_registered :: "TxnManager \<Rightarrow> int \<times> int \<Rightarrow> TabletInfo \<Rightarrow> Rowset \<Rightarrow> bool" where
  "txn_registered txns k ti rowset =
     (case txns k of None \<Rightarrow> False | Some tablets \<Rightarrow> tablets ti = Some rowset)"


text \<open>
  A rowset meta of the list comes to its tablet's rowset set, or to the transaction
  map, only as a rowset that loaded for a tablet of the directory and only in the
  state that asks for it.
\<close>

definition loads_as ::
  "load_env \<Rightarrow> TabletManager \<Rightarrow> RowsetStatePB \<Rightarrow> RowsetMeta \<Rightarrow> TabletInfo \<Rightarrow> Rowset \<Rightarrow> bool" where
  "loads_as env tm st rowset_meta ti rowset =
     (rowset_state rowset_meta = st \<and> owner rowset_meta = ti
      \<and> (case tm ti of
            None \<Rightarrow> False
          | Some tablet \<Rightarrow>
              rowset_loads env tablet rowset_meta \<and> rowset = rowset_of env tablet rowset_meta))"

text \<open>
  Two directories hold the same tablets when they have the same keys and each tablet
  kept its schema and its volume and lost no rowset.
\<close>

definition same_tablets :: "TabletManager \<Rightarrow> TabletManager \<Rightarrow> bool" where
  "same_tablets tm tm' =
     (\<forall>k. case tm k of
             None \<Rightarrow> tm' k = None
           | Some t \<Rightarrow>
               (case tm' k of
                  None \<Rightarrow> False
                | Some t' \<Rightarrow>
                    tablet_schema t' = tablet_schema t \<and> tablet_data_dir t' = tablet_data_dir t
                    \<and> inc_rowsets t \<subseteq> inc_rowsets t'))"



text \<open>
  The rowsets that the visible rowset metas of a list bring to the rowset set of a
  tablet under a given identity.
\<close>

definition visible_rowsets :: "load_env \<Rightarrow> RowsetMeta list \<Rightarrow> TabletInfo \<Rightarrow> Tablet \<Rightarrow> Rowset set" where
  "visible_rowsets env dir_rowset_metas ti tablet =
     rowset_of env tablet `
       {x \<in> set dir_rowset_metas.
          rowset_state x = VISIBLE \<and> owner x = ti \<and> rowset_loads env tablet x}"

section \<open>Trash and snapshot sweep\<close>

text \<open>
  A \<open>DataDirInfo\<close> is what \<open>get_all_data_dir_info\<close> reports of a volume; capacity and
  available space are \<open>int64_t\<close> byte counts. The directories on disk map a path to the
  names of its entries; a directory whose iteration throws is \<open>Unreadable\<close>, and a path
  that maps to nothing does not exist.
\<close>

record DataDirInfo =
  info_path :: string
  capacity :: "64 word"
  available :: "64 word"
  info_is_used :: bool

datatype dir_listing = Listing "string list" | Unreadable

type_synonym disk_dirs = "string \<rightharpoonup> dir_listing"

text \<open>
  The source computes the usage of a volume and the guard fraction in \<open>double\<close>. A
  \<open>double\<close> is either no number (NaN) or a number; the type \<open>'d\<close> stands for the numbers,
  the two infinities among them, with their order. A comparison with a NaN on either
  side is false.
\<close>

datatype 'd double = NaN | Number 'd

definition double_gt :: "('d::linorder) double \<Rightarrow> 'd double \<Rightarrow> bool" where
  "double_gt a b =
     (case a of
        NaN \<Rightarrow> False
      | Number x \<Rightarrow> (case b of NaN \<Rightarrow> False | Number y \<Rightarrow> x > y))"

text \<open>
  The configuration values the sweep reads (\<open>config::snapshot_expire_time_sec\<close>,
  \<open>config::trash_file_expire_time_sec\<close>, both copied into \<open>uint32_t\<close>, and
  \<open>config::disk_capacity_insufficient_percentage\<close>), and what it takes from the C
  library, the file system and \<open>olap_define.h\<close>: the reading of a timestamp
  (\<open>strptime\<close> with the format \<open>%Y%m%d%H%M%S\<close>, then \<open>mktime\<close>; \<open>None\<close> when \<open>strptime\<close>
  returns \<open>nullptr\<close>), whether \<open>remove_all_dir\<close> succeeds on a path, and the two
  directory suffixes \<open>SNAPSHOT_PREFIX\<close> and \<open>TRASH_PREFIX\<close>.

  The two quotients the sweep forms are taken as given where they are numbers:
  \<open>int64_div_double a b\<close> for \<open>a / (double) b\<close> with \<open>a\<close> and \<open>b\<close> not both 0 (an infinity
  when only \<open>b\<close> is 0), and \<open>int32_div_100 p\<close> for \<open>p / 100.0\<close>. The sweep only compares
  the values it computes, so the properties below hold for every linear order on
  \<open>'d\<close>.
\<close>

record sweep_config =
  snapshot_expire_time_sec :: nat
  trash_file_expire_time_sec :: nat
  disk_capacity_insufficient_percentage :: int

record 'd sweep_env =
  strptime_mktime :: "string \<Rightarrow> int option"
  remove_all_dir_ok :: "string \<Rightarrow> bool"
  SNAPSHOT_PREFIX :: string
  TRASH_PREFIX :: string
  int64_div_double :: "int \<Rightarrow> int \<Rightarrow> 'd"
  int32_div_100 :: "int \<Rightarrow> 'd"

definition guard_space :: "'d sweep_env \<Rightarrow> sweep_config \<Rightarrow> 'd double" where
  "guard_space env cfg = Number (int32_div_100 env (disk_capacity_insufficient_percentage cfg))"

text \<open>
  \<open>(info.capacity - info.available) / (double) info.capacity\<close>: the difference is taken
  in \<open>int64_t\<close>, where it wraps around, and both operands are converted to \<open>double\<close> as
  signed numbers. The quotient of 0 by 0 is a NaN, every other one is a number.
\<close>

definition usage_fraction :: "'d sweep_env \<Rightarrow> DataDirInfo \<Rightarrow> 'd" where
  "usage_fraction env info =
     int64_div_double env (sint (capacity info - available info)) (sint (capacity info))"

definition curr_usage :: "'d sweep_env \<Rightarrow> DataDirInfo \<Rightarrow> 'd double" where
  "curr_usage env info =
     (if sint (capacity info - available info) = 0 \<and> sint (capacity info) = 0 then NaN
      else Number (usage_fraction env info))"

text \<open>
  The loop of \<open>StorageEngine::_do_sweep\<close> over the entries of \<open>scan_root\<close>. The time of an
  entry is read from its name up to the first dot. An entry whose time does not
  parse, or whose removal fails, stays and turns the result into
  \<open>OLAP_ERR_OS_ERROR\<close>; an entry is removed when \<open>difftime(local_now, created) >= expire\<close>.
  The function returns the result and the names that stay.
\<close>

fun sweep_entries ::
  "'d sweep_env \<Rightarrow> string \<Rightarrow> int \<Rightarrow> nat \<Rightarrow> string list \<Rightarrow> OLAPStatus \<Rightarrow> OLAPStatus \<times> string list" where
  "sweep_entries env scan_root local_now expire [] res = (res, [])"
| "sweep_entries env scan_root local_now expire (dir_name # rest) res =
     (let path_name = scan_root @ ''/'' @ dir_name;
          str_time = takeWhile (\<lambda>c. c \<noteq> CHR ''.'') dir_name
      in case strptime_mktime env str_time of
           None \<Rightarrow>
             (case sweep_entries env scan_root local_now expire rest OLAP_ERR_OS_ERROR of
                (r, kept) \<Rightarrow> (r, dir_name # kept))
         | Some created \<Rightarrow>
             if local_now - created \<ge> int expire
             then
               (if \<not> remove_all_dir_ok env path_name
                then (case sweep_entries env scan_root local_now expire rest OLAP_ERR_OS_ERROR of
                        (r, kept) \<Rightarrow> (r, dir_name # kept))
                else sweep_entries env scan_root local_now expire rest res)
             else
               (case sweep_entries env scan_root local_now expire rest res of
                  (r, kept) \<Rightarrow> (r, dir_name # kept)))"

definition do_sweep ::
  "'d sweep_env \<Rightarrow> string \<Rightarrow> int \<Rightarrow> nat \<Rightarrow> disk_dirs \<Rightarrow> OLAPStatus \<times> disk_dirs" where
  "do_sweep env scan_root local_now expire disk =
     (case disk scan_root of
        None \<Rightarrow> (OLAP_SUCCESS, disk)
      | Some Unreadable \<Rightarrow> (OLAP_ERR_IO_ERROR, disk)
      | Some (Listing names) \<Rightarrow>
          (case sweep_entries env scan_root local_now expire names OLAP_SUCCESS of
             (res, kept) \<Rightarrow> (res, disk(scan_root \<mapsto> Listing kept))))"

text \<open>
  The body of the loop of \<open>StorageEngine::start_trash_sweep\<close> for one volume. The state
  is the value behind the \<open>usage\<close> pointer, the result so far, and the directories.
\<close>

definition sweep_data_dir ::
  "('d::linorder) sweep_env \<Rightarrow> sweep_config \<Rightarrow> int \<Rightarrow> DataDirInfo
   \<Rightarrow> 'd double \<times> OLAPStatus \<times> disk_dirs \<Rightarrow> 'd double \<times> OLAPStatus \<times> disk_dirs" where
  "sweep_data_dir env cfg local_now info st =
     (case st of (usage, res, disk) \<Rightarrow>
      if \<not> info_is_used info then st
      else
        (let usage' = (if double_gt usage (curr_usage env info) then usage
                       else curr_usage env info);
             snapshot_path = info_path info @ SNAPSHOT_PREFIX env
         in case do_sweep env snapshot_path local_now (snapshot_expire_time_sec cfg) disk of
              (curr_res, disk1) \<Rightarrow>
                (let res1 = (if curr_res \<noteq> OLAP_SUCCESS then curr_res else res);
                     trash_path = info_path info @ TRASH_PREFIX env
                 in case do_sweep env trash_path local_now
                           (if double_gt (curr_usage env info) (guard_space env cfg) then 0
                            else trash_file_expire_time_sec cfg) disk1 of
                      (curr_res2, disk2) \<Rightarrow>
                        (usage', if curr_res2 \<noteq> OLAP_SUCCESS then curr_res2 else res1, disk2))))"

text \<open>
  \<open>StorageEngine::start_trash_sweep\<close>. Its inputs are the value behind \<open>usage\<close>, the
  directories, the list \<open>get_all_data_dir_info\<close> filled (that function returns
  \<open>OLAP_SUCCESS\<close> on every path of the source, so the early return on its failure is
  never taken), and the local time, \<open>None\<close> when \<open>localtime_r\<close> fails. The closing call of
  \<open>TabletManager::start_trash_sweep\<close> acts on the tablet manager only.
\<close>

definition start_trash_sweep ::
  "('d::linorder) sweep_env \<Rightarrow> sweep_config \<Rightarrow> DataDirInfo list \<Rightarrow> int option \<Rightarrow> 'd double
   \<Rightarrow> disk_dirs \<Rightarrow> OLAPStatus \<times> 'd double \<times> disk_dirs" where
  "start_trash_sweep env cfg data_dir_infos local_time usage disk =
     (case local_time of
        None \<Rightarrow> (OLAP_ERR_OS_ERROR, usage, disk)
      | Some local_now \<Rightarrow>
          (case fold (sweep_data_dir env cfg local_now) data_dir_infos (usage, OLAP_SUCCESS, disk) of
             (usage', res, disk') \<Rightarrow> (res, usage', disk')))"

text \<open>
  The vocabulary of the claims: the time of an entry, whether a sweep with a given
  threshold removes it, the volumes in use, and whether the usage of a volume is a
  number.
\<close>

definition entry_created :: "'d sweep_env \<Rightarrow> string \<Rightarrow> int option" where
  "entry_created env dir_name = strptime_mktime env (takeWhile (\<lambda>c. c \<noteq> CHR ''.'') dir_name)"

definition sweep_removes :: "'d sweep_env \<Rightarrow> string \<Rightarrow> int \<Rightarrow> nat \<Rightarrow> string \<Rightarrow> bool" where
  "sweep_removes env scan_root local_now expire dir_name =
     (case entry_created env dir_name of
        None \<Rightarrow> False
      | Some created \<Rightarrow>
          local_now - created \<ge> int expire \<and> remove_all_dir_ok env (scan_root @ ''/'' @ dir_name))"

definition used_infos :: "DataDirInfo list \<Rightarrow> DataDirInfo list" where
  "used_infos data_dir_infos = filter info_is_used data_dir_infos"

definition trash_path_of :: "'d sweep_env \<Rightarrow> DataDirInfo \<Rightarrow> string" where
  "trash_path_of env info = info_path info @ TRASH_PREFIX env"

definition trash_expire_for :: "('d::linorder) sweep_env \<Rightarrow> sweep_config \<Rightarrow> DataDirInfo \<Rightarrow> nat" where
  "trash_expire_for env cfg info =
     (if double_gt (curr_usage env info) (guard_space env cfg) then 0
      else trash_file_expire_time_sec cfg)"

definition usage_is_number :: "DataDirInfo \<Rightarrow> bool" where
  "usage_is_number info = (\<not> (capacity info = 0 \<and> available info = 0))"

section \<open>Concrete inputs\<close>

text \<open>Small engines and volumes at which the properties below are evaluated.\<close>

definition empty_olap_meta :: OlapMeta where
  "empty_olap_meta =
     \<lparr>tablet_convert_finished = True, old_headers = [], headers = [], rowset_metas = []\<rparr>"

definition volume :: "string \<Rightarrow> bool \<Rightarrow> int \<Rightarrow> TabletInfo list \<Rightarrow> DataDir" where
  "volume p used cid tablets =
     \<lparr>path = p, is_used = used, cluster_id = cid, tablet_set = tablets, meta = empty_olap_meta\<rparr>"

definition disk_5 :: DataDir where
  "disk_5 = volume ''/disk1'' True 5 []"

definition disk_7 :: DataDir where
  "disk_7 = volume ''/disk2'' True 7 []"

definition volumes_m1_5_m1 :: "(string \<times> DataDir) list" where
  "volumes_m1_5_m1 =
     [(''/disk1'', volume ''/disk1'' True (-1) []),
      (''/disk2'', volume ''/disk2'' True 5 []),
      (''/disk3'', volume ''/disk3'' True (-1) [])]"

definition volumes_5_7 :: "(string \<times> DataDir) list" where
  "volumes_5_7 =
     [(''/disk1'', disk_5), (''/disk2'', disk_7)]"

definition engine_with :: "(string \<times> DataDir) list \<Rightarrow> int \<Rightarrow> StorageEngine" where
  "engine_with m configured_cluster_id =
     \<lparr>store_map = m, effective_cluster_id = configured_cluster_id,
      is_all_cluster_id_exist = True, is_drop_tables = False,
      min_percentage_of_error_disk = 50\<rparr>"

definition two_unused_volumes :: "(string \<times> DataDir) list" where
  "two_unused_volumes =
     [(''/disk1'', volume ''/disk1'' False 5 [(1, 11)]),
      (''/disk2'', volume ''/disk2'' False 5 [(2, 22)])]"

definition compaction_env_600 :: compaction_env where
  "compaction_env_600 =
     \<lparr>now_ms = 2000000, min_compaction_failure_interval_sec = 600,
      can_do_compaction = (\<lambda>t. True)\<rparr>"

definition table_with :: "int \<Rightarrow> 64 word \<Rightarrow> 32 word \<Rightarrow> OLAPTable" where
  "table_with i last_failure score =
     \<lparr>table_tablet_id = i, table_schema_hash = 1, store_path_hash = 7, table_is_used = True,
      is_loaded = True, last_compaction_failure_time = last_failure,
      cumulative_lock_held = False, base_compaction_lock_held = False,
      base_compaction_score = score, cumulative_compaction_score = score\<rparr>"

definition rowset_meta_with :: "int \<Rightarrow> int \<Rightarrow> RowsetStatePB \<Rightarrow> RowsetMeta" where
  "rowset_meta_with rid tid st =
     \<lparr>rowset_id = rid, rs_tablet_id = tid, rs_tablet_schema_hash = 1, rowset_state = st,
      partition_id = 100, txn_id = 1000 + rid, load_id = 0, version = (2, 2)\<rparr>"

definition rowset_with :: "int \<Rightarrow> RowsetStatePB \<Rightarrow> bool \<Rightarrow> Rowset" where
  "rowset_with rid st used = \<lparr>rs_rowset_meta = rowset_meta_with rid 10 st, in_use = used\<rparr>"

definition tablet_with :: "int \<Rightarrow> int \<Rightarrow> Tablet" where
  "tablet_with tid hash =
     \<lparr>tablet_id = tid, schema_hash = hash, tablet_schema = ''k1 int'', tablet_data_dir = ''/disk1'',
      inc_rowsets = {}\<rparr>"

text \<open>
  A task that names the tablets 7, 3 and 9 and whose \<open>prepare\<close> fails with a status of
  its own; the directory holds the tablets 3 and 7 only.
\<close>

definition failing_prepare_task :: "nat EngineTask" where
  "failing_prepare_task =
     \<lparr>get_related_tablets = (\<lambda>ts. [(7, 1), (3, 1), (9, 1)]),
      prepare = (\<lambda>ts tm. (OLAP_ERR_OTHER 5, Suc ts, tm)),
      execute = (\<lambda>ts tm. (OLAP_SUCCESS, Suc ts, tm)),
      finish = (\<lambda>ts tm. (OLAP_SUCCESS, Suc ts, tm))\<rparr>"

definition two_tablet_world :: "nat task_world" where
  "two_tablet_world =
     \<lparr>task_state = 0,
      tablet_mgr = [(3, 1) \<mapsto> tablet_with 3 1, (7, 1) \<mapsto> tablet_with 7 1],
      header_wrlocks = {#},
      calls = []\<rparr>"

text \<open>
  A sweep at time 1000000 with the trash expiry 259200 s (three days) and the guard
  90 percent. Entry names carry their time as \<open>t\<close> followed by the seconds before the
  sweep at which they were made; any other name does not parse. The numbers of the
  example are pairs in their lexicographic order: \<open>(0, q)\<close> is the rational \<open>q\<close>,
  \<open>(1, 0)\<close> is plus infinity and \<open>(- 1, 0)\<close> minus infinity. The quotients are exact.
\<close>

definition sweep_env_example :: "(int \<times> rat) sweep_env" where
  "sweep_env_example =
     \<lparr>strptime_mktime =
        (\<lambda>s. if s = ''t10'' then Some (1000000 - 10)
              else if s = ''t259200'' then Some (1000000 - 259200)
              else if s = ''t300000'' then Some (1000000 - 300000)
              else None),
      remove_all_dir_ok = (\<lambda>p. True),
      SNAPSHOT_PREFIX = ''/snapshot'',
      TRASH_PREFIX = ''/trash'',
      int64_div_double =
        (\<lambda>a b. if b = 0 then (if a > 0 then (1, 0) else (- 1, 0))
               else (0, of_int a / of_int b)),
      int32_div_100 = (\<lambda>p. (0, of_int p / 100))\<rparr>"

definition sweep_config_example :: sweep_config where
  "sweep_config_example =
     \<lparr>snapshot_expire_time_sec = 172800, trash_file_expire_time_sec = 259200,
      disk_capacity_insufficient_percentage = 90\<rparr>"

definition volume_info :: "string \<Rightarrow> 64 word \<Rightarrow> 64 word \<Rightarrow> bool \<Rightarrow> DataDirInfo" where
  "volume_info p cap avail used =
     \<lparr>info_path = p, capacity = cap, available = avail, info_is_used = used\<rparr>"

definition trash_of_disk1 :: "string list \<Rightarrow> disk_dirs" where
  "trash_of_disk1 names = [''/disk1/trash'' \<mapsto> Listing names]"

text \<open>
  A store whose conversion is finished: the meta of tablet 10, and rowset metas 1
  (committed), 2 (visible), 3 (committed, but its rowset fails to load), 4 (prepared),
  all of tablet 10, 5 (visible, of a tablet 99 that the store does not have) and one
  that does not parse. A legacy store: one legacy header, which converts to the meta
  of tablet 10 and a pending rowset 6, and leftovers of an unfinished conversion.
\<close>

definition load_env_example :: load_env where
  "load_env_example =
     \<lparr>get_tablet_convert_finished_status = OLAP_SUCCESS,
      set_tablet_convert_finished_status = OLAP_SUCCESS,
      parse_olap_header = (\<lambda>s. if s = ''old10'' then Some ''hdr10'' else None),
      to_new_snapshot = (\<lambda>h. (OLAP_SUCCESS, ((10, 1), ''t10''), [(6, ''r6'')])),
      rowset_meta_init =
        (\<lambda>s. if s = ''r1'' then Some (rowset_meta_with 1 10 COMMITTED)
              else if s = ''r2'' then Some (rowset_meta_with 2 10 VISIBLE)
              else if s = ''r3'' then Some (rowset_meta_with 3 10 COMMITTED)
              else if s = ''r4'' then Some (rowset_meta_with 4 10 PREPARED)
              else if s = ''r5'' then Some (rowset_meta_with 5 99 VISIBLE)
              else if s = ''r6'' then Some (rowset_meta_with 6 10 VISIBLE)
              else None),
      tablet_meta_init = (\<lambda>s. if s = ''t10'' then Some (tablet_with 10 1) else None),
      load_rowset =
        (\<lambda>schema dir rm.
           (if rowset_id rm = 3 then OLAP_ERR_OTHER 1 else OLAP_SUCCESS,
            \<lparr>rs_rowset_meta = rm, in_use = False\<rparr>))\<rparr>"

definition volume_with_meta :: "OlapMeta \<Rightarrow> DataDir" where
  "volume_with_meta m =
     \<lparr>path = ''/disk1'', is_used = True, cluster_id = -1, tablet_set = [], meta = m\<rparr>"

definition converted_store :: OlapMeta where
  "converted_store =
     \<lparr>tablet_convert_finished = True, old_headers = [],
      headers = [((10, 1), ''t10'')],
      rowset_metas =
        [(1, ''r1''), (2, ''r2''), (3, ''r3''), (4, ''r4''), (5, ''r5''), (7, ''garbage'')]\<rparr>"


definition legacy_store :: OlapMeta where
  "legacy_store =
     \<lparr>tablet_convert_finished = False, old_headers = [((10, 1), ''old10'')],
      headers = [((10, 1), ''stale'')], rowset_metas = [(9, ''r4'')]\<rparr>"

definition no_managers :: managers where
  "no_managers = \<lparr>tablet_manager = Map.empty, txn_manager = Map.empty\<rparr>"

text \<open>
  Managers that are in use when the load begins: they hold a tablet 99, which the store
  does not have, and a rowset already registered for tablet 10 under the transaction
  of rowset meta 1.
\<close>

definition earlier_rowset :: Rowset where
  "earlier_rowset =
     \<lparr>rs_rowset_meta = (rowset_meta_with 1 10 COMMITTED)\<lparr>rowset_id := 9\<rparr>, in_use = False\<rparr>"

definition rowset_5_of_99 :: Rowset where
  "rowset_5_of_99 = \<lparr>rs_rowset_meta = rowset_meta_with 5 99 VISIBLE, in_use = False\<rparr>"

definition managers_in_use :: managers where
  "managers_in_use =
     \<lparr>tablet_manager = [(99, 1) \<mapsto> tablet_with 99 1],
      txn_manager = [(100, 1001) \<mapsto> [(10, 1) \<mapsto> earlier_rowset]]\<rparr>"

section \<open>Properties\<close>

subsection \<open>Cluster-id reconciliation\<close>

lemma collect_cluster_id_mismatch:
  "cid \<noteq> -1 \<Longrightarrow> (p, d) \<in> set m \<Longrightarrow> cluster_id d \<noteq> -1 \<Longrightarrow> cluster_id d \<noteq> cid
   \<Longrightarrow> fst (collect_cluster_id m cid all_exist) = OLAP_ERR_INVALID_CLUSTER_INFO"
  by (induction m cid all_exist rule: collect_cluster_id.induct) (auto simp: Let_def)

lemma collect_cluster_id_conflict:
  "(p1, d1) \<in> set m \<Longrightarrow> (p2, d2) \<in> set m \<Longrightarrow> cluster_id d1 \<noteq> -1 \<Longrightarrow> cluster_id d2 \<noteq> -1
   \<Longrightarrow> cluster_id d1 \<noteq> cluster_id d2
   \<Longrightarrow> fst (collect_cluster_id m cid all_exist) = OLAP_ERR_INVALID_CLUSTER_INFO"
proof (induction m cid all_exist rule: collect_cluster_id.induct)
  case (1 cid all_exist)
  then show ?case by simp
next
  case (2 p d rest cid all_exist)
  show ?case
  proof (cases "cid = -1")
    case False
    have "cluster_id d1 \<noteq> cid \<or> cluster_id d2 \<noteq> cid" using "2.prems" by auto
    then show ?thesis
      using collect_cluster_id_mismatch [OF False] "2.prems" by blast
  next
    case True
    show ?thesis
    proof (cases "cluster_id d = -1")
      case True
      then have "(p1, d1) \<in> set rest" "(p2, d2) \<in> set rest" using "2.prems" by auto
      then show ?thesis using "2.IH"(1) True "2.prems" by (simp add: Let_def)
    next
      case False
      have "\<exists>q dd. (q, dd) \<in> set rest \<and> cluster_id dd \<noteq> -1 \<and> cluster_id dd \<noteq> cluster_id d"
      proof (cases "cluster_id d1 = cluster_id d")
        case True
        then have "(p2, d2) \<in> set rest" using "2.prems" by auto
        then show ?thesis using True "2.prems" by metis
      next
        case False
        then have "(p1, d1) \<in> set rest" using "2.prems" by auto
        then show ?thesis using False "2.prems" by metis
      qed
      then obtain q dd where r: "(q, dd) \<in> set rest" "cluster_id dd \<noteq> -1" "cluster_id dd \<noteq> cluster_id d"
        by blast
      have "fst (collect_cluster_id rest (cluster_id d) all_exist) = OLAP_ERR_INVALID_CLUSTER_INFO"
        by (rule collect_cluster_id_mismatch [OF False r])
      moreover have "collect_cluster_id ((p, d) # rest) (-1) all_exist
                       = collect_cluster_id rest (cluster_id d) all_exist"
        using False by (simp add: Let_def)
      ultimately show ?thesis unfolding \<open>cid = -1\<close> by simp
    qed
  qed
qed

lemma collect_cluster_id_agree:
  assumes v: "v \<noteq> -1"
  shows "cid = -1 \<or> cid = v \<Longrightarrow> \<forall>x \<in> set m. cluster_id (snd x) = -1 \<or> cluster_id (snd x) = v
   \<Longrightarrow> collect_cluster_id m cid all_exist =
        (OLAP_SUCCESS,
         if v \<in> cluster_id ` snd ` set m then v else cid,
         all_exist \<and> -1 \<notin> cluster_id ` snd ` set m)"
proof (induction m arbitrary: cid all_exist)
  case Nil
  then show ?case by simp
next
  case (Cons x m)
  obtain p d where x: "x = (p, d)" by (cases x)
  have rest: "\<forall>x \<in> set m. cluster_id (snd x) = -1 \<or> cluster_id (snd x) = v"
    using Cons.prems(2) by simp
  have d: "cluster_id d = -1 \<or> cluster_id d = v" using Cons.prems(2) x by simp
  show ?case
  proof (cases "cluster_id d = -1")
    case True
    have "collect_cluster_id (x # m) cid all_exist = collect_cluster_id m cid False"
      using True x by simp
    also have "\<dots> = (OLAP_SUCCESS, if v \<in> cluster_id ` snd ` set m then v else cid,
        False \<and> -1 \<notin> cluster_id ` snd ` set m)"
      by (rule Cons.IH [OF Cons.prems(1) rest])
    finally show ?thesis using True x v by simp
  next
    case False
    then have dv: "cluster_id d = v" using d by simp
    have "collect_cluster_id (x # m) cid all_exist = collect_cluster_id m v all_exist"
      using dv v x Cons.prems(1) by (auto simp: Let_def)
    also have "\<dots> = (OLAP_SUCCESS, if v \<in> cluster_id ` snd ` set m then v else v,
        all_exist \<and> -1 \<notin> cluster_id ` snd ` set m)"
      by (rule Cons.IH [OF _ rest]) simp
    finally show ?thesis using dv x v by simp
  qed
qed

lemma set_cluster_id_stores_eq:
  "set_cluster_id_stores cid m = (Status_OK, map (\<lambda>(p, d). (p, d\<lparr>cluster_id := cid\<rparr>)) m)"
  by (induction m) (auto simp: DataDir_set_cluster_id_def)

lemma check_cluster_id_conflict:
  assumes "(p1, d1) \<in> set (store_map e)" "(p2, d2) \<in> set (store_map e)"
    and "cluster_id d1 \<noteq> -1" "cluster_id d2 \<noteq> -1" "cluster_id d1 \<noteq> cluster_id d2"
  shows "fst (check_all_root_path_cluster_id e) = OLAP_ERR_INVALID_CLUSTER_INFO
         \<and> store_map (snd (check_all_root_path_cluster_id e)) = store_map e
         \<and> effective_cluster_id (snd (check_all_root_path_cluster_id e)) = effective_cluster_id e"
proof -
  obtain st cid a where c: "collect_cluster_id (store_map e) (-1) (is_all_cluster_id_exist e) = (st, cid, a)"
    by (cases "collect_cluster_id (store_map e) (-1) (is_all_cluster_id_exist e)")
  have "fst (collect_cluster_id (store_map e) (-1) (is_all_cluster_id_exist e)) = OLAP_ERR_INVALID_CLUSTER_INFO"
    by (rule collect_cluster_id_conflict [OF assms])
  then have "st = OLAP_ERR_INVALID_CLUSTER_INFO" using c by simp
  then show ?thesis using c by (simp add: check_all_root_path_cluster_id_def)
qed

lemma check_cluster_id_agree:
  assumes v: "v \<noteq> -1"
    and ids: "set (stored_cluster_ids e) = {-1, v}"
    and eff: "effective_cluster_id e = -1 \<or> effective_cluster_id e = v"
  shows "fst (check_all_root_path_cluster_id e) = OLAP_SUCCESS
         \<and> effective_cluster_id (snd (check_all_root_path_cluster_id e)) = v
         \<and> is_all_cluster_id_exist (snd (check_all_root_path_cluster_id e))
         \<and> stored_cluster_ids (snd (check_all_root_path_cluster_id e))
             = replicate (length (store_map e)) v
         \<and> map fst (store_map (snd (check_all_root_path_cluster_id e))) = map fst (store_map e)"
proof -
  have "set (stored_cluster_ids e) = cluster_id ` snd ` set (store_map e)"
    by (simp add: stored_cluster_ids_def split_beta image_image)
  then have img: "cluster_id ` snd ` set (store_map e) = {-1, v}"
    using ids by simp
  have all: "\<forall>x \<in> set (store_map e). cluster_id (snd x) = -1 \<or> cluster_id (snd x) = v"
    using img by blast
  have c: "collect_cluster_id (store_map e) (-1) (is_all_cluster_id_exist e) = (OLAP_SUCCESS, v, False)"
    using collect_cluster_id_agree [OF v _ all, of "-1" "is_all_cluster_id_exist e"] img by simp
  let ?e1 = "e\<lparr>is_all_cluster_id_exist := False\<rparr>"
  let ?e2 = "?e1\<lparr>effective_cluster_id := v\<rparr>"
  have j: "judge_and_update_effective_cluster_id v ?e1 = (OLAP_SUCCESS, ?e2)"
    using v eff by (auto simp: judge_and_update_effective_cluster_id_def)
  have r: "check_all_root_path_cluster_id e = (OLAP_SUCCESS, snd (set_cluster_id v ?e2))"
    using c j v by (simp add: check_all_root_path_cluster_id_def)
  have s: "snd (set_cluster_id v ?e2)
           = ?e2\<lparr>store_map := map (\<lambda>(p, d). (p, d\<lparr>cluster_id := v\<rparr>)) (store_map e),
                  effective_cluster_id := v, is_all_cluster_id_exist := True\<rparr>"
    by (simp add: set_cluster_id_def set_cluster_id_stores_eq)
  have m1: "map ((\<lambda>(p, d). cluster_id d) \<circ> (\<lambda>(p, d). (p, d\<lparr>cluster_id := v\<rparr>))) (store_map e)
            = replicate (length (store_map e)) v"
    by (induction "store_map e") (auto simp: map_replicate_const split_beta)
  have m2: "map (fst \<circ> (\<lambda>(p, d). (p, d\<lparr>cluster_id := v\<rparr>))) (store_map e) = map fst (store_map e)"
    by (simp add: split_beta comp_def)
  show ?thesis using r s m1 m2 by (simp add: stored_cluster_ids_def)
qed

text \<open>
  Claim C3, as amended. (a) If two volumes of the store map hold cluster ids that differ
  from each other and from \<open>-1\<close>, \<open>check_all_root_path_cluster_id\<close> returns
  \<open>OLAP_ERR_INVALID_CLUSTER_INFO\<close> and leaves the store map, hence every volume's
  stored cluster id, as it was. (b) If the cluster ids the volumes hold are \<open>-1\<close> and
  \<open>5\<close> (as for \<open>{-1, 5, -1}\<close>, in any order) and the id the engine starts from, which
  \<open>open\<close> takes from the configuration, is \<open>-1\<close> or \<open>5\<close>, the check succeeds, the
  effective id is \<open>5\<close> and every volume reports \<open>5\<close> afterwards.
\<close>

theorem cluster_id_agreement:
  "((p1, d1) \<in> set (store_map e) \<and> (p2, d2) \<in> set (store_map e)
        \<and> cluster_id d1 \<noteq> -1 \<and> cluster_id d2 \<noteq> -1 \<and> cluster_id d1 \<noteq> cluster_id d2
     \<longrightarrow> fst (check_all_root_path_cluster_id e) = OLAP_ERR_INVALID_CLUSTER_INFO
         \<and> store_map (snd (check_all_root_path_cluster_id e)) = store_map e)
   \<and> (set (stored_cluster_ids e) = {-1, 5}
        \<and> (effective_cluster_id e = -1 \<or> effective_cluster_id e = 5)
     \<longrightarrow> fst (check_all_root_path_cluster_id e) = OLAP_SUCCESS
         \<and> effective_cluster_id (snd (check_all_root_path_cluster_id e)) = 5
         \<and> stored_cluster_ids (snd (check_all_root_path_cluster_id e))
             = replicate (length (store_map e)) 5)"
proof (intro conjI impI)
  assume "(p1, d1) \<in> set (store_map e) \<and> (p2, d2) \<in> set (store_map e)
        \<and> cluster_id d1 \<noteq> -1 \<and> cluster_id d2 \<noteq> -1 \<and> cluster_id d1 \<noteq> cluster_id d2"
  then have h: "(p1, d1) \<in> set (store_map e)" "(p2, d2) \<in> set (store_map e)"
    "cluster_id d1 \<noteq> -1" "cluster_id d2 \<noteq> -1" "cluster_id d1 \<noteq> cluster_id d2" by simp_all
  show "fst (check_all_root_path_cluster_id e) = OLAP_ERR_INVALID_CLUSTER_INFO"
    using check_cluster_id_conflict [OF h] by simp
  show "store_map (snd (check_all_root_path_cluster_id e)) = store_map e"
    using check_cluster_id_conflict [OF h] by simp
next
  assume a: "set (stored_cluster_ids e) = {-1, 5}
        \<and> (effective_cluster_id e = -1 \<or> effective_cluster_id e = 5)"
  have v: "(5::int) \<noteq> -1" by simp
  note r = check_cluster_id_agree [OF v conjunct1 [OF a] conjunct2 [OF a]]
  show "fst (check_all_root_path_cluster_id e) = OLAP_SUCCESS" using r by simp
  show "effective_cluster_id (snd (check_all_root_path_cluster_id e)) = 5" using r by simp
  show "stored_cluster_ids (snd (check_all_root_path_cluster_id e))
             = replicate (length (store_map e)) 5" using r by simp
qed

text \<open>
  Both hypotheses are met: (a) at the volumes \<open>{5, 7}\<close>, (b) at \<open>{-1, 5, -1}\<close> with no
  configured id.
\<close>

theorem cluster_id_agreement_witness:
  "fst (check_all_root_path_cluster_id (engine_with volumes_5_7 (-1))) = OLAP_ERR_INVALID_CLUSTER_INFO
   \<and> store_map (snd (check_all_root_path_cluster_id (engine_with volumes_5_7 (-1)))) = volumes_5_7
   \<and> fst (check_all_root_path_cluster_id (engine_with volumes_m1_5_m1 (-1))) = OLAP_SUCCESS
   \<and> effective_cluster_id (snd (check_all_root_path_cluster_id (engine_with volumes_m1_5_m1 (-1)))) = 5
   \<and> stored_cluster_ids (snd (check_all_root_path_cluster_id (engine_with volumes_m1_5_m1 (-1))))
       = [5, 5, 5]"
proof -
  have a: "(''/disk1'', disk_5) \<in> set (store_map (engine_with volumes_5_7 (-1)))
        \<and> (''/disk2'', disk_7) \<in> set (store_map (engine_with volumes_5_7 (-1)))
        \<and> cluster_id disk_5 \<noteq> -1 \<and> cluster_id disk_7 \<noteq> -1 \<and> cluster_id disk_5 \<noteq> cluster_id disk_7"
    by (simp add: engine_with_def volume_def volumes_5_7_def disk_5_def disk_7_def)
  have b: "set (stored_cluster_ids (engine_with volumes_m1_5_m1 (-1))) = {-1, 5}
        \<and> (effective_cluster_id (engine_with volumes_m1_5_m1 (-1)) = -1
            \<or> effective_cluster_id (engine_with volumes_m1_5_m1 (-1)) = 5)"
    by (auto simp: engine_with_def volume_def volumes_m1_5_m1_def stored_cluster_ids_def)
  have l: "replicate (length (store_map (engine_with volumes_m1_5_m1 (-1)))) (5::int) = [5, 5, 5]"
    by (simp add: engine_with_def volume_def volumes_m1_5_m1_def)
  have s: "store_map (engine_with volumes_5_7 (-1)) = volumes_5_7"
    by (simp add: engine_with_def volume_def)
  show ?thesis
    using cluster_id_agreement [of "''/disk1''" disk_5 "engine_with volumes_5_7 (-1)" "''/disk2''" disk_7]
      cluster_id_agreement [of _ _ "engine_with volumes_m1_5_m1 (-1)"] a b l s
    by simp
qed

text \<open>
  Claim C3 as it is stated promises success for the volumes \<open>{-1, 5, -1}\<close> whatever
  the engine's own id. With the configured id \<open>7\<close> the check compares the
  volumes' \<open>5\<close> with it in \<open>_judge_and_update_effective_cluster_id\<close> and fails; no
  volume is written.
\<close>

theorem cluster_id_configured_conflict_counterexample:
  "stored_cluster_ids (engine_with volumes_m1_5_m1 7) = [-1, 5, -1]
   \<and> fst (check_all_root_path_cluster_id (engine_with volumes_m1_5_m1 7)) = OLAP_ERR_INVALID_CLUSTER_INFO
   \<and> stored_cluster_ids (snd (check_all_root_path_cluster_id (engine_with volumes_m1_5_m1 7)))
       = [-1, 5, -1]"
  by (simp add: engine_with_def volume_def volumes_m1_5_m1_def stored_cluster_ids_def
      check_all_root_path_cluster_id_def judge_and_update_effective_cluster_id_def Let_def)

subsection \<open>Disk-health pass\<close>

lemma clear_unused_stores_total:
  "snd (snd (clear_unused_stores m v t)) = t + word_of_nat (length m)"
  by (induction m v t rule: clear_unused_stores.induct)
     (auto simp: clear_tablets_def split: prod.splits)

lemma delete_tables_on_unused_root_path_returns:
  assumes "store_map e \<noteq> []" "length (store_map e) < 2 ^ 32"
  shows "delete_tables_on_unused_root_path e tm \<noteq> Process_exit n"
proof -
  obtain m v t where c: "clear_unused_stores (store_map e) [] 0 = (m, v, t)"
    by (cases "clear_unused_stores (store_map e) [] 0")
  have "t = word_of_nat (length (store_map e))"
    using clear_unused_stores_total [of "store_map e" "[]" 0] c by simp
  moreover have "(word_of_nat (length (store_map e)) :: 32 word) \<noteq> 0"
    by (rule of_nat_neq_0) (use assms in simp_all)
  ultimately have "t \<noteq> 0" by simp
  then show ?thesis
    using c by (simp add: delete_tables_on_unused_root_path_def used_disk_not_enough_def Let_def)
qed

text \<open>
  Claim C4 at a failing input: two volumes, both unused, and an error-disk percentage of
  50. All volumes are unusable, which exceeds 50 percent, yet the pass returns instead
  of ending the process: the count it hands to \<open>_used_disk_not_enough\<close> is still 0.
\<close>

theorem disk_health_fatal_branch_not_reached:
  "unusable_fraction_exceeds (engine_with two_unused_volumes 5)
   \<and> delete_tables_on_unused_root_path (engine_with two_unused_volumes 5) Map.empty
       \<noteq> Process_exit 0"
  by (simp add: unusable_fraction_exceeds_def unused_store_count_def engine_with_def volume_def
      two_unused_volumes_def delete_tables_on_unused_root_path_def used_disk_not_enough_def
      clear_tablets_def Let_def numeral_2_eq_2 [symmetric])

subsection \<open>Compaction scheduling\<close>

lemma visit_table_eq:
  "visit_table env ct h t (hs, b) =
     (if candidate env ct h t \<and> compaction_score ct t > hs then (compaction_score ct t, Some t)
      else (hs, b))"
  by (cases ct)
     (auto simp: visit_table_def candidate_def in_failure_backoff_def compaction_lock_held_def
       compaction_score_def try_cumulative_lock_def release_cumulative_lock_def
       try_base_compaction_lock_def release_base_compaction_lock_def Let_def)

lemma fold_visit_table_concat:
  "fold (\<lambda>table_ins acc. fold (visit_table env ct h) (snd table_ins) acc) tablet_map acc
   = fold (visit_table env ct h) (concat (map snd tablet_map)) acc"
  by (induction tablet_map arbitrary: acc) simp_all

lemma fold_visit_table_candidates:
  "fold (visit_table env ct h) ts acc
   = fold (visit_table env ct h) (filter (candidate env ct h) ts) acc"
proof (induction ts arbitrary: acc)
  case Nil
  then show ?case by simp
next
  case (Cons t ts)
  obtain hs b where acc: "acc = (hs, b)" by (cases acc)
  show ?case
  proof (cases "candidate env ct h t")
    case True
    then show ?thesis using Cons.IH by simp
  next
    case False
    then have "visit_table env ct h t acc = acc" by (simp add: acc visit_table_eq)
    then show ?thesis using False Cons.IH by simp
  qed
qed

text \<open>
  The invariant of the scan over the candidates seen so far: either nothing was
  chosen and every candidate scores at most the initial 0, or the chosen tablet
  scores more than 0, more than every candidate before it and at least as much as
  every candidate after it.
\<close>

lemma fold_visit_table_invariant:
  assumes "\<forall>c \<in> set cs. candidate env ct h c"
  shows "(fold (visit_table env ct h) cs (0, None) = (0, None)
            \<and> (\<forall>c \<in> set cs. compaction_score ct c = 0))
         \<or> (\<exists>pre t post. cs = pre @ t # post
              \<and> fold (visit_table env ct h) cs (0, None) = (compaction_score ct t, Some t)
              \<and> 0 < compaction_score ct t
              \<and> (\<forall>c \<in> set pre. compaction_score ct c < compaction_score ct t)
              \<and> (\<forall>c \<in> set post. compaction_score ct c \<le> compaction_score ct t))"
  using assms
proof (induction cs rule: rev_induct)
  case Nil
  then show ?case by simp
next
  case (snoc x xs)
  have cx: "candidate env ct h x" using snoc.prems by simp
  have cxs: "\<forall>c \<in> set xs. candidate env ct h c" using snoc.prems by simp
  note IH = snoc.IH [OF cxs]
  show ?case
  proof (rule disjE [OF IH])
    assume a: "fold (visit_table env ct h) xs (0, None) = (0, None)
                 \<and> (\<forall>c \<in> set xs. compaction_score ct c = 0)"
    show ?thesis
    proof (cases "compaction_score ct x = 0")
      case True
      then have "fold (visit_table env ct h) (xs @ [x]) (0, None) = (0, None)"
        using a by (simp add: visit_table_eq)
      then show ?thesis using a True by simp
    next
      case False
      then have pos: "0 < compaction_score ct x" by (simp add: word_greater_zero_iff)
      then have "fold (visit_table env ct h) (xs @ [x]) (0, None) = (compaction_score ct x, Some x)"
        using a cx by (simp add: visit_table_eq)
      moreover have "\<forall>c \<in> set xs. compaction_score ct c < compaction_score ct x"
        using a pos by simp
      ultimately have "xs @ [x] = xs @ x # []
              \<and> fold (visit_table env ct h) (xs @ [x]) (0, None) = (compaction_score ct x, Some x)
              \<and> 0 < compaction_score ct x
              \<and> (\<forall>c \<in> set xs. compaction_score ct c < compaction_score ct x)
              \<and> (\<forall>c \<in> set []. compaction_score ct c \<le> compaction_score ct x)"
        using pos by simp
      then show ?thesis by blast
    qed
  next
    assume "\<exists>pre t post. xs = pre @ t # post
              \<and> fold (visit_table env ct h) xs (0, None) = (compaction_score ct t, Some t)
              \<and> 0 < compaction_score ct t
              \<and> (\<forall>c \<in> set pre. compaction_score ct c < compaction_score ct t)
              \<and> (\<forall>c \<in> set post. compaction_score ct c \<le> compaction_score ct t)"
    then obtain pre t post where b: "xs = pre @ t # post"
        "fold (visit_table env ct h) xs (0, None) = (compaction_score ct t, Some t)"
        "0 < compaction_score ct t"
        "\<forall>c \<in> set pre. compaction_score ct c < compaction_score ct t"
        "\<forall>c \<in> set post. compaction_score ct c \<le> compaction_score ct t"
      by blast
    show ?thesis
    proof (cases "compaction_score ct t < compaction_score ct x")
      case True
      have "fold (visit_table env ct h) (xs @ [x]) (0, None) = (compaction_score ct x, Some x)"
        using b(2) True cx by (simp add: visit_table_eq)
      moreover have "\<forall>c \<in> set xs. compaction_score ct c < compaction_score ct x"
        using b True by auto
      moreover have "0 < compaction_score ct x" using b(3) True by simp
      ultimately have "xs @ [x] = xs @ x # []
              \<and> fold (visit_table env ct h) (xs @ [x]) (0, None) = (compaction_score ct x, Some x)
              \<and> 0 < compaction_score ct x
              \<and> (\<forall>c \<in> set xs. compaction_score ct c < compaction_score ct x)
              \<and> (\<forall>c \<in> set []. compaction_score ct c \<le> compaction_score ct x)"
        by simp
      then show ?thesis by blast
    next
      case False
      have "fold (visit_table env ct h) (xs @ [x]) (0, None) = (compaction_score ct t, Some t)"
        using b(2) False by (simp add: visit_table_eq)
      moreover have "\<forall>c \<in> set (post @ [x]). compaction_score ct c \<le> compaction_score ct t"
        using b(5) False by auto
      moreover have "xs @ [x] = pre @ t # (post @ [x])" using b(1) by simp
      ultimately show ?thesis using b(3) b(4) by blast
    qed
  qed
qed

lemma find_best_tablet_to_compaction_candidates:
  "find_best_tablet_to_compaction env ct h tablet_map
   = snd (fold (visit_table env ct h) (candidates env ct h tablet_map) (0, None))"
  unfolding find_best_tablet_to_compaction_def candidates_def
  by (simp only: fold_visit_table_concat fold_visit_table_candidates [symmetric])

text \<open>
  Claim C7, as amended. Among the candidates of a volume (the tablets that no guard
  excludes, in scan order) the selection returns the first one whose score is the
  greatest, provided that score is greater than 0: every candidate before the
  returned tablet scores strictly less and every candidate after it scores at most
  as much. When no candidate scores more than 0 the selection returns no tablet.
\<close>

theorem best_tablet_greatest_positive_score:
  "(find_best_tablet_to_compaction env ct h tablet_map = None
      \<and> (\<forall>c \<in> set (candidates env ct h tablet_map). compaction_score ct c = 0))
   \<or> (\<exists>pre t post. candidates env ct h tablet_map = pre @ t # post
        \<and> find_best_tablet_to_compaction env ct h tablet_map = Some t
        \<and> 0 < compaction_score ct t
        \<and> (\<forall>c \<in> set pre. compaction_score ct c < compaction_score ct t)
        \<and> (\<forall>c \<in> set post. compaction_score ct c \<le> compaction_score ct t))"
proof -
  let ?cs = "candidates env ct h tablet_map"
  have c: "\<forall>c \<in> set ?cs. candidate env ct h c"
    by (simp add: candidates_def)
  show ?thesis
  proof (rule disjE [OF fold_visit_table_invariant [OF c]])
    assume a: "fold (visit_table env ct h) ?cs (0, None) = (0, None)
                 \<and> (\<forall>c \<in> set ?cs. compaction_score ct c = 0)"
    then have "find_best_tablet_to_compaction env ct h tablet_map = None"
      by (simp add: find_best_tablet_to_compaction_candidates)
    then show ?thesis using a by (intro disjI1 conjI) simp_all
  next
    assume "\<exists>pre t post. ?cs = pre @ t # post
              \<and> fold (visit_table env ct h) ?cs (0, None) = (compaction_score ct t, Some t)
              \<and> 0 < compaction_score ct t
              \<and> (\<forall>c \<in> set pre. compaction_score ct c < compaction_score ct t)
              \<and> (\<forall>c \<in> set post. compaction_score ct c \<le> compaction_score ct t)"
    then obtain pre t post where b: "?cs = pre @ t # post"
        "fold (visit_table env ct h) ?cs (0, None) = (compaction_score ct t, Some t)"
        "0 < compaction_score ct t"
        "\<forall>c \<in> set pre. compaction_score ct c < compaction_score ct t"
        "\<forall>c \<in> set post. compaction_score ct c \<le> compaction_score ct t"
      by blast
    have "find_best_tablet_to_compaction env ct h tablet_map = Some t"
      using b(2) by (simp add: find_best_tablet_to_compaction_candidates)
    then have "?cs = pre @ t # post
        \<and> find_best_tablet_to_compaction env ct h tablet_map = Some t
        \<and> 0 < compaction_score ct t
        \<and> (\<forall>c \<in> set pre. compaction_score ct c < compaction_score ct t)
        \<and> (\<forall>c \<in> set post. compaction_score ct c \<le> compaction_score ct t)"
      using b by simp
    then show ?thesis by blast
  qed
qed

text \<open>
  Three candidates scoring 3, 9 and 9: the first of the two that score 9 is returned.
\<close>

theorem best_tablet_greatest_positive_score_witness:
  "candidates compaction_env_600 CUMULATIVE_COMPACTION 7
       [(1, [table_with 1 0 3]), (2, [table_with 2 0 9, table_with 3 0 9])]
     = [table_with 1 0 3, table_with 2 0 9, table_with 3 0 9]
   \<and> find_best_tablet_to_compaction compaction_env_600 CUMULATIVE_COMPACTION 7
       [(1, [table_with 1 0 3]), (2, [table_with 2 0 9, table_with 3 0 9])]
     = Some (table_with 2 0 9)"
  using best_tablet_greatest_positive_score [of compaction_env_600 CUMULATIVE_COMPACTION 7
      "[(1, [table_with 1 0 3]), (2, [table_with 2 0 9, table_with 3 0 9])]"]
  by (simp add: find_best_tablet_to_compaction_def visit_table_eq candidates_def candidate_def
      in_failure_backoff_def compaction_lock_held_def compaction_score_def
      compaction_env_600_def table_with_def)

text \<open>
  Claim C7 as it is stated has the selection return the candidate with the greatest
  score. A single candidate that scores 0 is not returned: the scan starts from
  \<open>highest_score = 0\<close> and replaces the best tablet only on a strictly greater score.
\<close>

theorem best_tablet_zero_score_counterexample:
  "candidates compaction_env_600 BASE_COMPACTION 7 [(1, [table_with 1 0 0])] = [table_with 1 0 0]
   \<and> find_best_tablet_to_compaction compaction_env_600 BASE_COMPACTION 7 [(1, [table_with 1 0 0])]
     = None"
  by (simp add: find_best_tablet_to_compaction_def visit_table_eq candidates_def candidate_def
      in_failure_backoff_def compaction_lock_held_def compaction_score_def
      compaction_env_600_def table_with_def)

lemma find_best_tablet_to_compaction_candidate:
  assumes "find_best_tablet_to_compaction env ct h tablet_map = Some t"
  shows "candidate env ct h t"
proof -
  let ?cs = "candidates env ct h tablet_map"
  have c: "\<forall>c \<in> set ?cs. candidate env ct h c"
    by (simp add: candidates_def)
  have r: "snd (fold (visit_table env ct h) ?cs (0, None)) = Some t"
    using assms by (simp add: find_best_tablet_to_compaction_candidates)
  have "t \<in> set ?cs"
  proof (rule disjE [OF fold_visit_table_invariant [OF c]])
    assume "fold (visit_table env ct h) ?cs (0, None) = (0, None)
                 \<and> (\<forall>c \<in> set ?cs. compaction_score ct c = 0)"
    then show ?thesis using r by simp
  next
    assume "\<exists>pre t post. ?cs = pre @ t # post
              \<and> fold (visit_table env ct h) ?cs (0, None) = (compaction_score ct t, Some t)
              \<and> 0 < compaction_score ct t
              \<and> (\<forall>c \<in> set pre. compaction_score ct c < compaction_score ct t)
              \<and> (\<forall>c \<in> set post. compaction_score ct c \<le> compaction_score ct t)"
    then obtain pre t' post where b: "?cs = pre @ t' # post"
        "fold (visit_table env ct h) ?cs (0, None) = (compaction_score ct t', Some t')"
      by blast
    then have "t' = t" using r by simp
    then show ?thesis using b(1) by simp
  qed
  then show ?thesis using c by blast
qed



text \<open>
  Where neither the difference of the two times nor the product of the interval with
  1000 leaves the range of \<open>int64_t\<close>, the guard is the comparison of the integers
  themselves, so a tablet with \<open>now - last_compaction_failure_time\<close> at most the
  backoff, read in the integers, is not returned.
\<close>

lemma in_failure_backoff_in_range:
  assumes "- (2 ^ 63) \<le> sint (now_ms env) - sint (last_compaction_failure_time t)"
    and "sint (now_ms env) - sint (last_compaction_failure_time t) < 2 ^ 63"
    and "- (2 ^ 63) \<le> sint (min_compaction_failure_interval_sec env) * 1000"
    and "sint (min_compaction_failure_interval_sec env) * 1000 < 2 ^ 63"
  shows "in_failure_backoff env t
         = (sint (now_ms env) - sint (last_compaction_failure_time t)
              \<le> sint (min_compaction_failure_interval_sec env) * 1000)"
proof -
  have d: "sint (now_ms env - last_compaction_failure_time t)
           = sint (now_ms env) - sint (last_compaction_failure_time t)"
    using assms(1) assms(2) by (simp add: sint_word_ariths signed_take_bit_int_eq_self)
  have k: "sint (1000 :: 64 word) = 1000" by simp
  have p: "sint (min_compaction_failure_interval_sec env * 1000)
           = sint (min_compaction_failure_interval_sec env) * 1000"
    using assms(3) assms(4) by (simp add: sint_word_ariths k signed_take_bit_int_eq_self)
  show ?thesis by (simp add: in_failure_backoff_def d p)
qed

lemma backoff_respected_in_range:
  assumes "- (2 ^ 63) \<le> sint (now_ms env) - sint (last_compaction_failure_time t)"
    and "sint (now_ms env) - sint (last_compaction_failure_time t) < 2 ^ 63"
    and "- (2 ^ 63) \<le> sint (min_compaction_failure_interval_sec env) * 1000"
    and "sint (min_compaction_failure_interval_sec env) * 1000 < 2 ^ 63"
    and "sint (now_ms env) - sint (last_compaction_failure_time t)
           \<le> sint (min_compaction_failure_interval_sec env) * 1000"
  shows "find_best_tablet_to_compaction env ct h tablet_map \<noteq> Some t"
proof
  assume b: "find_best_tablet_to_compaction env ct h tablet_map = Some t"
  have "candidate env ct h t" by (rule find_best_tablet_to_compaction_candidate [OF b])
  then have "\<not> in_failure_backoff env t" by (simp add: candidate_def)
  then show False
    using in_failure_backoff_in_range [OF assms(1) assms(2) assms(3) assms(4)] assms(5) by simp
qed

text \<open>
  Outside that range the 64-bit results decide. A tablet whose failure time is the
  least \<open>int64_t\<close> has a difference that wraps to a negative number, so the guard
  holds and the tablet is passed over. With an interval of \<open>2^62\<close> seconds the product
  wraps to 0, so a tablet that failed 2000 seconds ago is outside the backoff and is
  returned.
\<close>

lemma backoff_difference_wraps:
  "sint (now_ms compaction_env_600
           - last_compaction_failure_time (table_with 1 (- 9223372036854775808) 9))
     = 2000000 - 9223372036854775808
   \<and> find_best_tablet_to_compaction compaction_env_600 BASE_COMPACTION 7
         [(1, [table_with 1 (- 9223372036854775808) 9])] = None"
  by (simp add: find_best_tablet_to_compaction_def visit_table_eq candidate_def
      in_failure_backoff_def compaction_lock_held_def compaction_score_def
      compaction_env_600_def table_with_def)

lemma backoff_product_wraps:
  "sint (min_compaction_failure_interval_sec
           (compaction_env_600\<lparr>min_compaction_failure_interval_sec := 4611686018427387904\<rparr>)
         * 1000) = 0
   \<and> find_best_tablet_to_compaction
         (compaction_env_600\<lparr>min_compaction_failure_interval_sec := 4611686018427387904\<rparr>)
         BASE_COMPACTION 7 [(1, [table_with 1 0 9])] = Some (table_with 1 0 9)"
  by (simp add: find_best_tablet_to_compaction_def visit_table_eq candidate_def
      in_failure_backoff_def compaction_lock_held_def compaction_score_def
      compaction_env_600_def table_with_def)

subsection \<open>Garbage collection\<close>

text \<open>
  The index sweep keeps exactly the artifacts that are in use and removes from disk
  exactly the files recorded for the others.
\<close>

lemma start_delete_unused_index_registry:
  "fst (start_delete_unused_index gc_files disk) = filter (\<lambda>(sg, files). is_in_use sg) gc_files"
  by (induction gc_files disk rule: start_delete_unused_index.induct)
     (auto split: prod.splits)

lemma start_delete_unused_index_disk:
  "snd (start_delete_unused_index gc_files disk)
   = disk - (\<Union>(sg, files) \<in> set gc_files. if is_in_use sg then {} else set files)"
  by (induction gc_files disk rule: start_delete_unused_index.induct)
     (auto simp: remove_files_def split: prod.splits if_splits)

text \<open>
  The rowset sweep is defined only when every tracked rowset is in use, and then it
  changes nothing; with one rowset that is not in use it ends in the undefined use of
  the erased iterator.
\<close>

lemma delete_unused_rowset_from_all_in_use:
  "\<forall>(rid, rowset) \<in> set unused_rowsets. in_use rowset
   \<Longrightarrow> delete_unused_rowset_from kept unused_rowsets removed = Inr (kept @ unused_rowsets, removed)"
  by (induction unused_rowsets arbitrary: kept) auto

lemma delete_unused_rowset_from_undefined:
  "(rid, rowset) \<in> set unused_rowsets \<Longrightarrow> \<not> in_use rowset
   \<Longrightarrow> \<exists>reg removed'. delete_unused_rowset_from kept unused_rowsets removed
         = Inl (Invalidated_iterator_used, reg, removed')"
  by (induction unused_rowsets arbitrary: kept) auto

text \<open>
  Claim C5 at a failing input: a rowset registry with two rowsets, neither in use. The
  sweep calls \<open>remove()\<close> on the first and erases it, then reads the erased iterator;
  the second rowset is still tracked. The index sweep, which assigns the iterator
  that \<open>erase\<close> returns, does what the claim says.
\<close>

theorem unused_rowset_sweep_undefined:
  "start_delete_unused_rowset
     [(1, rowset_with 1 VISIBLE False), (2, rowset_with 2 VISIBLE False)]
   = Inl (Invalidated_iterator_used, [(2, rowset_with 2 VISIBLE False)], [1])"
  by (simp add: start_delete_unused_rowset_def rowset_with_def)

subsection \<open>Task execution\<close>

lemma lock_related_tablets_eq:
  "lock_related_tablets tm tablet_infos (related, locks)
   = (related @ filter (\<lambda>ti. tm ti \<noteq> None) tablet_infos,
      locks + mset (filter (\<lambda>ti. tm ti \<noteq> None) tablet_infos))"
  by (induction tablet_infos arbitrary: related locks)
     (auto simp: obtain_header_wrlock_def get_tablet_def split: option.splits)

lemma fold_release_header_lock:
  "fold release_header_lock related locks = locks - mset related"
  by (induction related arbitrary: locks) (simp_all add: release_header_lock_def)

lemma run_with_related_tablets_locked_eq:
  "run_with_related_tablets_locked task phase call w =
     (fst (phase (task_state w) (tablet_mgr w)),
      \<lparr>task_state = fst (snd (phase (task_state w) (tablet_mgr w))),
       tablet_mgr = snd (snd (phase (task_state w) (tablet_mgr w))),
       header_wrlocks = header_wrlocks w,
       calls = calls w @ [call]\<rparr>)"
  by (simp add: run_with_related_tablets_locked_def lock_related_tablets_eq
      fold_release_header_lock Let_def split: prod.splits)

text \<open>
  Whatever the three phases return, the header write-locks held after \<open>execute_task\<close>
  are those held before it.
\<close>

lemma execute_task_releases_locks:
  "header_wrlocks (snd (execute_task task w)) = header_wrlocks w"
  by (simp add: execute_task_def run_with_related_tablets_locked_eq Let_def split: prod.splits)

text \<open>
  Claim C2. When the task's \<open>prepare\<close> returns a status other than \<open>OLAP_SUCCESS\<close>,
  \<open>execute_task\<close> returns that status; \<open>PREPARE\<close> is the only phase it invokes, so the
  task's state and the directory are as \<open>prepare\<close> left them; and the header
  write-locks held afterwards are those held before the call: every lock the call
  took is released.
\<close>

theorem prepare_failure_atomic:
  assumes "fst (prepare task (task_state w) (tablet_mgr w)) \<noteq> OLAP_SUCCESS"
  shows "fst (execute_task task w) = fst (prepare task (task_state w) (tablet_mgr w))
         \<and> calls (snd (execute_task task w)) = calls w @ [PREPARE]
         \<and> header_wrlocks (snd (execute_task task w)) = header_wrlocks w
         \<and> task_state (snd (execute_task task w)) = fst (snd (prepare task (task_state w) (tablet_mgr w)))
         \<and> tablet_mgr (snd (execute_task task w)) = snd (snd (prepare task (task_state w) (tablet_mgr w)))"
  using assms by (simp add: execute_task_def run_with_related_tablets_locked_eq)

text \<open>
  A task over the tablets 7, 3 and 9 whose \<open>prepare\<close> fails, run with no lock held.
\<close>

theorem prepare_failure_atomic_witness:
  "fst (prepare failing_prepare_task (task_state two_tablet_world) (tablet_mgr two_tablet_world))
     \<noteq> OLAP_SUCCESS
   \<and> fst (execute_task failing_prepare_task two_tablet_world) = OLAP_ERR_OTHER 5
   \<and> calls (snd (execute_task failing_prepare_task two_tablet_world)) = [PREPARE]
   \<and> header_wrlocks (snd (execute_task failing_prepare_task two_tablet_world)) = {#}"
  using prepare_failure_atomic [of failing_prepare_task two_tablet_world]
  by (simp add: failing_prepare_task_def two_tablet_world_def)

text \<open>
  While that \<open>prepare\<close> runs, the write-locks of the tablets 3 and 7 are held, taken in
  sorted order; tablet 9 does not resolve and is skipped.
\<close>

lemma locks_held_during_prepare:
  "lock_related_tablets (tablet_mgr two_tablet_world)
     (sort (get_related_tablets failing_prepare_task (task_state two_tablet_world)))
     ([], header_wrlocks two_tablet_world)
   = ([(3, 1), (7, 1)], {#(3, 1), (7, 1)#})"
  by (simp add: failing_prepare_task_def two_tablet_world_def obtain_header_wrlock_def
      get_tablet_def)

subsection \<open>Volume load\<close>

lemma reconcile_rowset_eq:
  "reconcile_rowset env rm w =
     (case tablet_manager w (owner rm) of
        None \<Rightarrow> w
      | Some t \<Rightarrow>
          if \<not> rowset_loads env t rm then w
          else
            (case rowset_state rm of
               COMMITTED \<Rightarrow>
                 w\<lparr>txn_manager :=
                     snd (commit_txn (txn_manager w) (partition_id rm) (txn_id rm)
                            (rs_tablet_id rm) (rs_tablet_schema_hash rm) (rowset_of env t rm))\<rparr>
             | VISIBLE \<Rightarrow>
                 w\<lparr>tablet_manager :=
                     (tablet_manager w)
                       (owner rm \<mapsto> t\<lparr>inc_rowsets := insert (rowset_of env t rm) (inc_rowsets t)\<rparr>)\<rparr>
             | PREPARED \<Rightarrow> w))"
  by (simp add: reconcile_rowset_def get_tablet_def owner_def rowset_loads_def rowset_of_def
      add_inc_rowset_def split: option.splits prod.splits RowsetStatePB.splits)

lemma commit_txn_registers:
  "\<exists>r. txn_registered (snd (commit_txn txns p x tid h rowset)) (p, x) (tid, h) r"
  by (simp add: commit_txn_def txn_registered_def split: option.splits)

lemma commit_txn_preserves:
  "txn_registered txns k ti r \<Longrightarrow> txn_registered (snd (commit_txn txns p x tid h rowset)) k ti r"
  by (auto simp: commit_txn_def txn_registered_def split: option.splits)


lemma same_tablets_at:
  assumes "same_tablets tm tm'"
  shows "case tm k of None \<Rightarrow> tm' k = None
         | Some t \<Rightarrow> (case tm' k of None \<Rightarrow> False
            | Some t' \<Rightarrow> tablet_schema t' = tablet_schema t \<and> tablet_data_dir t' = tablet_data_dir t
                \<and> inc_rowsets t \<subseteq> inc_rowsets t')"
  using assms unfolding same_tablets_def by (rule spec)

lemma same_tablets_refl: "same_tablets tm tm"
  by (simp add: same_tablets_def split: option.splits)



lemma loads_as_same_tablets:
  assumes "same_tablets tm tm'"
  shows "loads_as env tm' st rm ti r = loads_as env tm st rm ti r"
proof -
  have "case tm ti of None \<Rightarrow> tm' ti = None
           | Some t \<Rightarrow> (case tm' ti of None \<Rightarrow> False
              | Some t' \<Rightarrow> tablet_schema t' = tablet_schema t \<and> tablet_data_dir t' = tablet_data_dir t
                  \<and> inc_rowsets t \<subseteq> inc_rowsets t')"
    by (rule same_tablets_at [OF assms])
  then show ?thesis
    by (cases "tm ti"; cases "tm' ti") (auto simp: loads_as_def rowset_loads_def rowset_of_def)
qed


lemma reconcile_rowset_same_tablets:
  "same_tablets (tablet_manager w) (tablet_manager (reconcile_rowset env rm w))"
proof (cases "tablet_manager w (owner rm)")
  case None
  then show ?thesis by (simp add: reconcile_rowset_eq same_tablets_refl)
next
  case (Some t)
  show ?thesis
  proof (cases "rowset_loads env t rm \<and> rowset_state rm = VISIBLE")
    case False
    then have "tablet_manager (reconcile_rowset env rm w) = tablet_manager w"
      using Some by (cases "rowset_state rm") (auto simp: reconcile_rowset_eq)
    then show ?thesis by (simp add: same_tablets_refl)
  next
    case True
    then have "tablet_manager (reconcile_rowset env rm w)
               = (tablet_manager w)(owner rm \<mapsto> t\<lparr>inc_rowsets := insert (rowset_of env t rm) (inc_rowsets t)\<rparr>)"
      using Some by (simp add: reconcile_rowset_eq)
    then show ?thesis using Some
      by (auto simp: same_tablets_def split: option.splits)
  qed
qed


lemma reconcile_rowset_txn_preserves:
  "txn_registered (txn_manager w) k ti r
   \<Longrightarrow> txn_registered (txn_manager (reconcile_rowset env rm w)) k ti r"
  by (cases "tablet_manager w (owner rm)"; cases "rowset_state rm")
     (auto simp: reconcile_rowset_eq commit_txn_preserves)

lemma reconcile_rowsets_txn_preserves:
  "txn_registered (txn_manager w) k ti r
   \<Longrightarrow> txn_registered (txn_manager (reconcile_rowsets env rms w)) k ti r"
proof (induction rms arbitrary: w)
  case Nil
  then show ?case by (simp add: reconcile_rowsets_def)
next
  case (Cons rm rms)
  have "txn_registered (txn_manager (reconcile_rowset env rm w)) k ti r"
    by (rule reconcile_rowset_txn_preserves [OF Cons.prems])
  then have "txn_registered (txn_manager (reconcile_rowsets env rms (reconcile_rowset env rm w))) k ti r"
    by (rule Cons.IH)
  then show ?case by (simp add: reconcile_rowsets_def)
qed

lemma reconcile_rowset_commits:
  assumes "loads_as env (tablet_manager w) COMMITTED rm ti r"
  shows "\<exists>r'. txn_registered (txn_manager (reconcile_rowset env rm w)) (txn_key rm) ti r'"
proof -
  have o: "owner rm = ti" and st: "rowset_state rm = COMMITTED"
    using assms by (simp_all add: loads_as_def)
  obtain t where t: "tablet_manager w (owner rm) = Some t" "rowset_loads env t rm"
    using assms o by (cases "tablet_manager w ti") (simp_all add: loads_as_def)
  have "txn_manager (reconcile_rowset env rm w)
        = snd (commit_txn (txn_manager w) (partition_id rm) (txn_id rm)
                 (rs_tablet_id rm) (rs_tablet_schema_hash rm) (rowset_of env t rm))"
    using t st by (simp add: reconcile_rowset_eq)
  moreover have "ti = (rs_tablet_id rm, rs_tablet_schema_hash rm)"
    using o by (simp add: owner_def)
  ultimately show ?thesis
    using commit_txn_registers [of "txn_manager w" "partition_id rm" "txn_id rm"
        "rs_tablet_id rm" "rs_tablet_schema_hash rm" "rowset_of env t rm"]
    by (simp add: txn_key_def)
qed




lemma reconcile_rowsets_Cons:
  "reconcile_rowsets env (rm # rms) w = reconcile_rowsets env rms (reconcile_rowset env rm w)"
  by (simp add: reconcile_rowsets_def)

lemma reconcile_rowsets_commits:
  assumes "rm \<in> set rms" "loads_as env (tablet_manager w) COMMITTED rm ti r"
  shows "\<exists>r'. txn_registered (txn_manager (reconcile_rowsets env rms w)) (txn_key rm) ti r'"
  using assms
proof (induction rms arbitrary: w)
  case Nil
  then show ?case by simp
next
  case (Cons x rms)
  let ?w1 = "reconcile_rowset env x w"
  show ?case
  proof (cases "rm = x")
    case True
    obtain r' where "txn_registered (txn_manager ?w1) (txn_key rm) ti r'"
      using reconcile_rowset_commits [OF Cons.prems(2)] True by blast
    then have "txn_registered (txn_manager (reconcile_rowsets env rms ?w1)) (txn_key rm) ti r'"
      by (rule reconcile_rowsets_txn_preserves)
    then show ?thesis by (auto simp: reconcile_rowsets_Cons)
  next
    case False
    then have m: "rm \<in> set rms" using Cons.prems(1) by simp
    have "loads_as env (tablet_manager ?w1) COMMITTED rm ti r"
      using Cons.prems(2) loads_as_same_tablets [OF reconcile_rowset_same_tablets] by simp
    from Cons.IH [OF m this] show ?thesis by (simp add: reconcile_rowsets_Cons)
  qed
qed





lemma commit_txn_existing:
  "txn_registered txns (p, x) (tid, h) r0 \<Longrightarrow> snd (commit_txn txns p x tid h rowset) = txns"
  by (auto simp: commit_txn_def txn_registered_def split: option.splits)










text \<open>
  The same load into managers that are in use: the rowset registered earlier for
  tablet 10 under the transaction of rowset meta 1 stays, and the visible rowset 5
  comes to the rowset set of tablet 99.
\<close>

lemma load_converted_store_in_use:
  "load_status (load_data_dir load_env_example (volume_with_meta converted_store) managers_in_use)
     = OLAP_SUCCESS
   \<and> loaded_dir (load_data_dir load_env_example (volume_with_meta converted_store) managers_in_use)
     = volume_with_meta converted_store
   \<and> tablet_manager
       (loaded (load_data_dir load_env_example (volume_with_meta converted_store) managers_in_use))
       (99, 1) = Some ((tablet_with 99 1)\<lparr>inc_rowsets := {rowset_5_of_99}\<rparr>)
   \<and> tablet_manager
       (loaded (load_data_dir load_env_example (volume_with_meta converted_store) managers_in_use))
       (10, 1) = Some ((tablet_with 10 1)\<lparr>inc_rowsets := {rowset_with 2 VISIBLE False}\<rparr>)
   \<and> txn_manager
       (loaded (load_data_dir load_env_example (volume_with_meta converted_store) managers_in_use))
     = [(100, 1001) \<mapsto> [(10, 1) \<mapsto> earlier_rowset]]"
  by (simp add: load_data_dir_def convert_if_unfinished_def collect_rowset_metas_def
      load_rowset_func_def load_tablets_def load_tablet_func_def load_tablet_from_meta_def
      reconcile_rowsets_def reconcile_rowset_def get_tablet_def commit_txn_def add_inc_rowset_def
      load_env_example_def volume_with_meta_def converted_store_def managers_in_use_def
      rowset_meta_with_def rowset_with_def tablet_with_def earlier_rowset_def rowset_5_of_99_def
      Let_def)


text \<open>
  The load of the legacy store runs the three conversion steps: the leftovers are
  cleaned, the legacy header is converted, and the flag is set.
\<close>

lemma load_legacy_store:
  "load_calls (load_data_dir load_env_example (volume_with_meta legacy_store) no_managers)
     = [CLEAN_UNFINISHED_CONVERTING_DATA, CONVERT_OLD_TABLET, SET_TABLET_CONVERT_FINISHED]
   \<and> meta (loaded_dir (load_data_dir load_env_example (volume_with_meta legacy_store) no_managers))
     = \<lparr>tablet_convert_finished = True, old_headers = [((10, 1), ''old10'')],
        headers = [((10, 1), ''t10'')], rowset_metas = [(6, ''r6'')]\<rparr>"
  by (simp add: load_data_dir_def convert_if_unfinished_def clean_unfinished_converting_data_def
      convert_old_tablet_def convert_tablet_func_def set_tablet_convert_finished_def
      TabletMetaManager_remove_def TabletMetaManager_save_def RowsetMetaManager_remove_def
      RowsetMetaManager_save_def put_def
      load_env_example_def volume_with_meta_def legacy_store_def no_managers_def Let_def)



lemma visible_rowsets_static:
  "visible_rowsets env rms k (t\<lparr>inc_rowsets := X\<rparr>) = visible_rowsets env rms k t"
  by (simp add: visible_rowsets_def rowset_of_def rowset_loads_def)

lemma visible_rowsets_Nil: "visible_rowsets env [] k t = {}"
  by (simp add: visible_rowsets_def)

lemma visible_rowsets_Cons:
  "visible_rowsets env (rm # rms) k t
   = (if rowset_state rm = VISIBLE \<and> owner rm = k \<and> rowset_loads env t rm
      then insert (rowset_of env t rm) (visible_rowsets env rms k t)
      else visible_rowsets env rms k t)"
  by (auto simp: visible_rowsets_def)

lemma reconcile_rowset_tablets:
  "tablet_manager (reconcile_rowset env rm w) k
   = map_option (\<lambda>t. t\<lparr>inc_rowsets := inc_rowsets t \<union> visible_rowsets env [rm] k t\<rparr>)
       (tablet_manager w k)"
proof (cases "tablet_manager w (owner rm)")
  case None
  then show ?thesis
    by (cases "tablet_manager w k")
       (auto simp: reconcile_rowset_eq visible_rowsets_Cons visible_rowsets_Nil)
next
  case (Some t)
  show ?thesis
  proof (cases "rowset_loads env t rm \<and> rowset_state rm = VISIBLE")
    case False
    then have e: "tablet_manager (reconcile_rowset env rm w) = tablet_manager w"
      using Some by (cases "rowset_state rm") (auto simp: reconcile_rowset_eq)
    show ?thesis
    proof (cases "tablet_manager w k")
      case None
      then show ?thesis by (simp add: e)
    next
      case (Some t')
      then show ?thesis using False \<open>tablet_manager w (owner rm) = Some t\<close>
        by (auto simp: e visible_rowsets_Cons visible_rowsets_Nil)
    qed
  next
    case True
    then have e: "tablet_manager (reconcile_rowset env rm w)
               = (tablet_manager w)(owner rm \<mapsto> t\<lparr>inc_rowsets := insert (rowset_of env t rm) (inc_rowsets t)\<rparr>)"
      using Some by (simp add: reconcile_rowset_eq)
    show ?thesis
    proof (cases "k = owner rm")
      case True
      then show ?thesis using e Some \<open>rowset_loads env t rm \<and> rowset_state rm = VISIBLE\<close>
        by (simp add: visible_rowsets_Cons visible_rowsets_Nil)
    next
      case False
      then show ?thesis using e
        by (cases "tablet_manager w k") (auto simp: visible_rowsets_Cons visible_rowsets_Nil)
    qed
  qed
qed

lemma reconcile_rowsets_tablets:
  "tablet_manager (reconcile_rowsets env rms w) k
   = map_option (\<lambda>t. t\<lparr>inc_rowsets := inc_rowsets t \<union> visible_rowsets env rms k t\<rparr>)
       (tablet_manager w k)"
proof (induction rms arbitrary: w)
  case Nil
  then show ?case
    by (cases "tablet_manager w k") (simp_all add: reconcile_rowsets_def visible_rowsets_Nil)
next
  case (Cons rm rms)
  show ?case
  proof (cases "tablet_manager w k")
    case None
    then show ?thesis
      by (simp add: reconcile_rowsets_Cons Cons.IH reconcile_rowset_tablets)
  next
    case (Some t)
    have "inc_rowsets t \<union> visible_rowsets env [rm] k t \<union> visible_rowsets env rms k t
          = inc_rowsets t \<union> visible_rowsets env (rm # rms) k t"
      by (auto simp: visible_rowsets_Cons visible_rowsets_Nil)
    then show ?thesis using Some
      by (simp add: reconcile_rowsets_Cons Cons.IH reconcile_rowset_tablets visible_rowsets_static)
  qed
qed

lemma load_tablet_func_add:
  "load_tablet_func env d k v tm = (True, tm ++ snd (load_tablet_func env d k v Map.empty))"
  by (simp add: load_tablet_func_def load_tablet_from_meta_def split: option.splits)

lemma traverse_load_tablets:
  "snd (traverse hs (load_tablet_func env d) tm)
   = tm ++ snd (traverse hs (load_tablet_func env d) Map.empty)"
proof (induction hs arbitrary: tm)
  case Nil
  then show ?case by simp
next
  case (Cons kv hs)
  obtain k v where kv: "kv = (k, v)" by (cases kv)
  have "fst (load_tablet_func env d k v Map.empty) = True"
    by (simp add: load_tablet_func_def split: prod.splits)
  then obtain m where g: "load_tablet_func env d k v Map.empty = (True, m)"
    by (cases "load_tablet_func env d k v Map.empty") simp
  have f: "load_tablet_func env d k v tm = (True, tm ++ m)"
    using load_tablet_func_add [of env d k v tm] g by simp
  have "snd (traverse hs (load_tablet_func env d) (tm ++ m))
        = (tm ++ m) ++ snd (traverse hs (load_tablet_func env d) Map.empty)"
    by (rule Cons.IH)
  moreover have "snd (traverse hs (load_tablet_func env d) m)
        = m ++ snd (traverse hs (load_tablet_func env d) Map.empty)"
    by (rule Cons.IH)
  ultimately show ?case by (simp add: kv f g)
qed

lemma load_tablets_add:
  "load_tablets env d tm = tm ++ load_tablets env d Map.empty"
  unfolding load_tablets_def by (rule traverse_load_tablets)

lemma second_load_tablets:
  "tablet_manager
     (reconcile_rowsets env rms
        (w'\<lparr>tablet_manager :=
              load_tablets env d
                (tablet_manager
                   (reconcile_rowsets env rms (w\<lparr>tablet_manager := load_tablets env d tm\<rparr>)))\<rparr>))
   = tablet_manager (reconcile_rowsets env rms (w\<lparr>tablet_manager := load_tablets env d tm\<rparr>))"
proof
  fix k
  let ?M = "load_tablets env d Map.empty"
  let ?G = "\<lambda>t. t\<lparr>inc_rowsets := inc_rowsets t \<union> visible_rowsets env rms k t\<rparr>"
  let ?tm1 = "tablet_manager (reconcile_rowsets env rms (w\<lparr>tablet_manager := load_tablets env d tm\<rparr>))"
  have one: "?tm1 k = map_option ?G ((tm ++ ?M) k)"
    using load_tablets_add [of env d tm] by (simp add: reconcile_rowsets_tablets)
  have two: "tablet_manager
     (reconcile_rowsets env rms (w'\<lparr>tablet_manager := load_tablets env d ?tm1\<rparr>)) k
     = map_option ?G ((?tm1 ++ ?M) k)"
    using load_tablets_add [of env d ?tm1] by (simp add: reconcile_rowsets_tablets)
  have idem: "?G (?G t) = ?G t" for t
    by (simp add: visible_rowsets_static Un_assoc)
  show "tablet_manager
     (reconcile_rowsets env rms (w'\<lparr>tablet_manager := load_tablets env d ?tm1\<rparr>)) k = ?tm1 k"
  proof (cases "?M k")
    case (Some t)
    then show ?thesis by (simp add: one two map_add_def)
  next
    case None
    then have a: "(?tm1 ++ ?M) k = ?tm1 k" and b: "(tm ++ ?M) k = tm k"
      by (simp_all add: map_add_def)
    have "map_option ?G (?tm1 k) = ?tm1 k"
      unfolding one b using idem by (cases "tm k") simp_all
    then show ?thesis unfolding two a .
  qed
qed


lemma second_load_same_tablets:
  "same_tablets (load_tablets env d tm)
     (load_tablets env d
        (tablet_manager (reconcile_rowsets env rms (w\<lparr>tablet_manager := load_tablets env d tm\<rparr>))))"
  unfolding same_tablets_def
proof
  fix k
  let ?M = "load_tablets env d Map.empty"
  let ?tm1 = "tablet_manager (reconcile_rowsets env rms (w\<lparr>tablet_manager := load_tablets env d tm\<rparr>))"
  have one: "?tm1 k
             = map_option (\<lambda>t. t\<lparr>inc_rowsets := inc_rowsets t \<union> visible_rowsets env rms k t\<rparr>)
                 (load_tablets env d tm k)"
    by (simp add: reconcile_rowsets_tablets)
  have a: "load_tablets env d tm k = (tm ++ ?M) k"
    using load_tablets_add [of env d tm] by simp
  have b: "load_tablets env d ?tm1 k = (?tm1 ++ ?M) k"
    using load_tablets_add [of env d ?tm1] by simp
  show "case load_tablets env d tm k of
          None \<Rightarrow> load_tablets env d ?tm1 k = None
        | Some t \<Rightarrow>
            (case load_tablets env d ?tm1 k of
               None \<Rightarrow> False
             | Some t' \<Rightarrow>
                 tablet_schema t' = tablet_schema t \<and> tablet_data_dir t' = tablet_data_dir t
                 \<and> inc_rowsets t \<subseteq> inc_rowsets t')"
  proof (cases "?M k")
    case (Some t)
    then show ?thesis unfolding a b by (simp add: map_add_def)
  next
    case None
    then have c: "(?tm1 ++ ?M) k = ?tm1 k" by (simp add: map_add_def)
    show ?thesis unfolding b c one by (cases "load_tablets env d tm k") simp_all
  qed
qed

lemma reconcile_rowset_txn_unchanged:
  assumes "\<forall>ti r. loads_as env (tablet_manager w) COMMITTED rm ti r
             \<longrightarrow> (\<exists>r'. txn_registered (txn_manager w) (txn_key rm) ti r')"
  shows "txn_manager (reconcile_rowset env rm w) = txn_manager w"
proof (cases "tablet_manager w (owner rm)")
  case None
  then show ?thesis by (simp add: reconcile_rowset_eq)
next
  case (Some t)
  show ?thesis
  proof (cases "rowset_loads env t rm \<and> rowset_state rm = COMMITTED")
    case False
    then show ?thesis using Some by (cases "rowset_state rm") (auto simp: reconcile_rowset_eq)
  next
    case True
    then have e: "txn_manager (reconcile_rowset env rm w)
        = snd (commit_txn (txn_manager w) (partition_id rm) (txn_id rm)
                 (rs_tablet_id rm) (rs_tablet_schema_hash rm) (rowset_of env t rm))"
      using Some by (simp add: reconcile_rowset_eq)
    have "loads_as env (tablet_manager w) COMMITTED rm (owner rm) (rowset_of env t rm)"
      using True Some by (simp add: loads_as_def)
    then obtain r' where "txn_registered (txn_manager w) (txn_key rm) (owner rm) r'"
      using assms by blast
    then have "txn_registered (txn_manager w) (partition_id rm, txn_id rm)
                 (rs_tablet_id rm, rs_tablet_schema_hash rm) r'"
      by (simp add: txn_key_def owner_def)
    then show ?thesis unfolding e by (rule commit_txn_existing)
  qed
qed

lemma reconcile_rowsets_txn_unchanged:
  assumes "\<forall>rm \<in> set rms. \<forall>ti r. loads_as env (tablet_manager w) COMMITTED rm ti r
             \<longrightarrow> (\<exists>r'. txn_registered (txn_manager w) (txn_key rm) ti r')"
  shows "txn_manager (reconcile_rowsets env rms w) = txn_manager w"
  using assms
proof (induction rms arbitrary: w)
  case Nil
  then show ?case by (simp add: reconcile_rowsets_def)
next
  case (Cons x rms)
  let ?w1 = "reconcile_rowset env x w"
  have t: "txn_manager ?w1 = txn_manager w"
    using Cons.prems by (intro reconcile_rowset_txn_unchanged) simp
  have l: "loads_as env (tablet_manager ?w1) COMMITTED rm ti r
           = loads_as env (tablet_manager w) COMMITTED rm ti r" for rm ti r
    by (rule loads_as_same_tablets [OF reconcile_rowset_same_tablets])
  have "\<forall>rm \<in> set rms. \<forall>ti r. loads_as env (tablet_manager ?w1) COMMITTED rm ti r
             \<longrightarrow> (\<exists>r'. txn_registered (txn_manager ?w1) (txn_key rm) ti r')"
    using Cons.prems by (simp add: t l)
  then have "txn_manager (reconcile_rowsets env rms ?w1) = txn_manager ?w1"
    by (rule Cons.IH)
  then show ?case by (simp add: reconcile_rowsets_Cons t)
qed

lemma second_load_txns:
  "txn_manager
     (reconcile_rowsets env rms
        ((reconcile_rowsets env rms (w\<lparr>tablet_manager := load_tablets env d (tablet_manager w)\<rparr>))
           \<lparr>tablet_manager :=
              load_tablets env d
                (tablet_manager
                   (reconcile_rowsets env rms
                      (w\<lparr>tablet_manager := load_tablets env d (tablet_manager w)\<rparr>)))\<rparr>))
   = txn_manager (reconcile_rowsets env rms (w\<lparr>tablet_manager := load_tablets env d (tablet_manager w)\<rparr>))"
proof -
  let ?w0 = "w\<lparr>tablet_manager := load_tablets env d (tablet_manager w)\<rparr>"
  let ?w1 = "reconcile_rowsets env rms ?w0"
  let ?w2 = "?w1\<lparr>tablet_manager := load_tablets env d (tablet_manager ?w1)\<rparr>"
  have s: "same_tablets (tablet_manager ?w0) (tablet_manager ?w2)"
    using second_load_same_tablets [of env d "tablet_manager w" rms w] by simp
  have "\<forall>rm \<in> set rms. \<forall>ti r. loads_as env (tablet_manager ?w2) COMMITTED rm ti r
             \<longrightarrow> (\<exists>r'. txn_registered (txn_manager ?w2) (txn_key rm) ti r')"
  proof (intro ballI allI impI)
    fix rm ti r
    assume m: "rm \<in> set rms" and l: "loads_as env (tablet_manager ?w2) COMMITTED rm ti r"
    have "loads_as env (tablet_manager ?w0) COMMITTED rm ti r"
      using l loads_as_same_tablets [OF s] by simp
    then have "\<exists>r'. txn_registered (txn_manager ?w1) (txn_key rm) ti r'"
      by (rule reconcile_rowsets_commits [OF m])
    then show "\<exists>r'. txn_registered (txn_manager ?w2) (txn_key rm) ti r'" by simp
  qed
  then have "txn_manager (reconcile_rowsets env rms ?w2) = txn_manager ?w2"
    by (rule reconcile_rowsets_txn_unchanged)
  then show ?thesis by simp
qed

lemma load_data_dir_finished:
  assumes "tablet_convert_finished (meta data_dir)"
  shows "load_data_dir env data_dir w =
     (if get_tablet_convert_finished_status env \<noteq> OLAP_SUCCESS
      then \<lparr>load_status = get_tablet_convert_finished_status env, loaded_dir = data_dir,
            loaded = w, load_calls = []\<rparr>
      else \<lparr>load_status = OLAP_SUCCESS, loaded_dir = data_dir,
            loaded = reconcile_rowsets env (collect_rowset_metas env data_dir)
                       (w\<lparr>tablet_manager := load_tablets env data_dir (tablet_manager w)\<rparr>),
            load_calls = []\<rparr>)"
  using assms by (simp add: load_data_dir_def convert_if_unfinished_def Let_def)

text \<open>
  Claim C9. For a volume whose conversion-finished flag is set, the load invokes none
  of the conversion steps and leaves the volume's store as it found it. A second load
  of that store, begun from the managers as the first load left them, again invokes
  none of the conversion steps, and ends with the tablet directory, and the
  transaction map, that the first load ended with.
\<close>

theorem finished_conversion_not_repeated:
  assumes "tablet_convert_finished (meta data_dir)"
  shows "load_calls (load_data_dir env data_dir w) = []
         \<and> loaded_dir (load_data_dir env data_dir w) = data_dir
         \<and> load_calls (load_data_dir env (loaded_dir (load_data_dir env data_dir w))
                         (loaded (load_data_dir env data_dir w))) = []
         \<and> loaded_dir (load_data_dir env (loaded_dir (load_data_dir env data_dir w))
                          (loaded (load_data_dir env data_dir w))) = data_dir
         \<and> tablet_manager (loaded (load_data_dir env (loaded_dir (load_data_dir env data_dir w))
                                       (loaded (load_data_dir env data_dir w))))
           = tablet_manager (loaded (load_data_dir env data_dir w))
         \<and> txn_manager (loaded (load_data_dir env (loaded_dir (load_data_dir env data_dir w))
                                    (loaded (load_data_dir env data_dir w))))
           = txn_manager (loaded (load_data_dir env data_dir w))"
proof (cases "get_tablet_convert_finished_status env = OLAP_SUCCESS")
  case False
  then show ?thesis by (simp add: load_data_dir_finished [OF assms])
next
  case True
  let ?rms = "collect_rowset_metas env data_dir"
  let ?w1 = "reconcile_rowsets env ?rms
               (w\<lparr>tablet_manager := load_tablets env data_dir (tablet_manager w)\<rparr>)"
  have one: "load_data_dir env data_dir w
             = \<lparr>load_status = OLAP_SUCCESS, loaded_dir = data_dir, loaded = ?w1, load_calls = []\<rparr>"
    using True by (simp add: load_data_dir_finished [OF assms])
  have two: "load_data_dir env data_dir ?w1
             = \<lparr>load_status = OLAP_SUCCESS, loaded_dir = data_dir,
                loaded = reconcile_rowsets env ?rms
                           (?w1\<lparr>tablet_manager := load_tablets env data_dir (tablet_manager ?w1)\<rparr>),
                load_calls = []\<rparr>"
    using True by (simp add: load_data_dir_finished [OF assms])
  have t: "tablet_manager (reconcile_rowsets env ?rms
                           (?w1\<lparr>tablet_manager := load_tablets env data_dir (tablet_manager ?w1)\<rparr>))
           = tablet_manager ?w1"
    by (rule second_load_tablets)
  have x: "txn_manager (reconcile_rowsets env ?rms
                           (?w1\<lparr>tablet_manager := load_tablets env data_dir (tablet_manager ?w1)\<rparr>))
           = txn_manager ?w1"
    by (rule second_load_txns)
  show ?thesis unfolding one using two t x by simp
qed

text \<open>
  The converted store has the flag set. Loaded into the managers in use, where tablet
  99 is not among the store's tablets and gets the visible rowset 5, and loaded again
  from what that load left, the directory is the same.
\<close>

theorem finished_conversion_not_repeated_witness:
  "tablet_convert_finished (meta (volume_with_meta converted_store))
   \<and> load_calls (load_data_dir load_env_example (volume_with_meta converted_store) managers_in_use)
     = []
   \<and> tablet_manager
       (loaded (load_data_dir load_env_example (volume_with_meta converted_store) managers_in_use))
       (99, 1) = Some ((tablet_with 99 1)\<lparr>inc_rowsets := {rowset_5_of_99}\<rparr>)
   \<and> load_calls
       (load_data_dir load_env_example (volume_with_meta converted_store)
          (loaded (load_data_dir load_env_example (volume_with_meta converted_store)
                     managers_in_use))) = []
   \<and> tablet_manager
       (loaded (load_data_dir load_env_example (volume_with_meta converted_store)
          (loaded (load_data_dir load_env_example (volume_with_meta converted_store)
                     managers_in_use))))
     = tablet_manager
         (loaded (load_data_dir load_env_example (volume_with_meta converted_store)
                    managers_in_use))
   \<and> tablet_manager
       (loaded (load_data_dir load_env_example (volume_with_meta converted_store)
          (loaded (load_data_dir load_env_example (volume_with_meta converted_store)
                     managers_in_use))))
       (99, 1) = Some ((tablet_with 99 1)\<lparr>inc_rowsets := {rowset_5_of_99}\<rparr>)"
proof -
  let ?d = "volume_with_meta converted_store"
  let ?R = "load_data_dir load_env_example ?d managers_in_use"
  have h: "tablet_convert_finished (meta ?d)"
    by (simp add: volume_with_meta_def converted_store_def)
  have t: "tablet_manager (loaded ?R) (99, 1)
           = Some ((tablet_with 99 1)\<lparr>inc_rowsets := {rowset_5_of_99}\<rparr>)"
    by (simp add: load_converted_store_in_use)
  note c = finished_conversion_not_repeated [OF h, of load_env_example managers_in_use]
  have d: "loaded_dir ?R = ?d" using c by simp
  have c1: "load_calls ?R = []" using c by simp
  have c2: "load_calls (load_data_dir load_env_example ?d (loaded ?R)) = []"
    using c unfolding d by simp
  have c3: "tablet_manager (loaded (load_data_dir load_env_example ?d (loaded ?R)))
            = tablet_manager (loaded ?R)"
    using c unfolding d by simp
  have c4: "tablet_manager (loaded (load_data_dir load_env_example ?d (loaded ?R))) (99, 1)
            = Some ((tablet_with 99 1)\<lparr>inc_rowsets := {rowset_5_of_99}\<rparr>)"
    unfolding c3 by (rule t)
  show ?thesis using h c1 t c2 c3 c4 by (intro conjI)
qed

subsection \<open>Trash sweep\<close>

lemma sweep_entries_kept:
  "snd (sweep_entries env scan_root now expire names res)
   = filter (\<lambda>n. \<not> sweep_removes env scan_root now expire n) names"
proof (induction names arbitrary: res)
  case Nil
  then show ?case by simp
next
  case (Cons n names)
  let ?kept = "filter (\<lambda>n. \<not> sweep_removes env scan_root now expire n) names"
  have ih: "\<exists>r. sweep_entries env scan_root now expire names res' = (r, ?kept)" for res'
    using Cons.IH [of res'] by (metis prod.collapse)
  obtain r1 where r1: "sweep_entries env scan_root now expire names OLAP_ERR_OS_ERROR = (r1, ?kept)"
    using ih by blast
  obtain r2 where r2: "sweep_entries env scan_root now expire names res = (r2, ?kept)"
    using ih by blast
  show ?case
  proof (cases "strptime_mktime env (takeWhile (\<lambda>c. c \<noteq> CHR ''.'') n)")
    case None
    then show ?thesis using r1 by (simp add: sweep_removes_def entry_created_def)
  next
    case (Some created)
    then show ?thesis using r1 r2 by (simp add: sweep_removes_def entry_created_def)
  qed
qed

lemma do_sweep_listing:
  assumes "disk scan_root = Some (Listing names)"
  shows "snd (do_sweep env scan_root now expire disk) scan_root
       = Some (Listing (filter (\<lambda>n. \<not> sweep_removes env scan_root now expire n) names))"
proof -
  obtain r kept where k: "sweep_entries env scan_root now expire names OLAP_SUCCESS = (r, kept)"
    by (cases "sweep_entries env scan_root now expire names OLAP_SUCCESS")
  then have "kept = filter (\<lambda>n. \<not> sweep_removes env scan_root now expire n) names"
    using sweep_entries_kept [of env scan_root now expire names OLAP_SUCCESS] by simp
  then show ?thesis using assms k by (simp add: do_sweep_def)
qed

lemma do_sweep_other:
  "other_root \<noteq> scan_root \<Longrightarrow> snd (do_sweep env scan_root now expire disk) other_root = disk other_root"
  by (simp add: do_sweep_def split: option.splits dir_listing.splits prod.splits)

lemma sweep_data_dir_usage:
  "info_is_used info
   \<Longrightarrow> fst (sweep_data_dir env cfg now info (usage, res, disk))
       = (if double_gt usage (curr_usage env info) then usage else curr_usage env info)"
  by (simp add: sweep_data_dir_def Let_def split: prod.splits)

lemma sweep_data_dir_unused:
  "\<not> info_is_used info \<Longrightarrow> sweep_data_dir env cfg now info st = st"
  by (simp add: sweep_data_dir_def split: prod.splits)

lemma fold_sweep_data_dir_usage:
  "fst (fold (sweep_data_dir env cfg now) infos (usage, res, disk))
   = fold (\<lambda>info u. if double_gt u (curr_usage env info) then u else curr_usage env info)
       (used_infos infos) usage"
proof (induction infos arbitrary: usage res disk)
  case Nil
  then show ?case by (simp add: used_infos_def)
next
  case (Cons info infos)
  show ?case
  proof (cases "info_is_used info")
    case False
    then show ?thesis using Cons.IH by (simp add: sweep_data_dir_unused used_infos_def)
  next
    case True
    obtain u r d where s: "sweep_data_dir env cfg now info (usage, res, disk) = (u, r, d)"
      by (cases "sweep_data_dir env cfg now info (usage, res, disk)")
    have "u = (if double_gt usage (curr_usage env info) then usage else curr_usage env info)"
      using sweep_data_dir_usage [OF True, of env cfg now usage res disk] s by simp
    then show ?thesis using True s Cons.IH [of u r d] by (simp add: used_infos_def)
  qed
qed

lemma curr_usage_number:
  "usage_is_number info \<Longrightarrow> curr_usage env info = Number (usage_fraction env info)"
  by (auto simp: usage_is_number_def curr_usage_def signed_eq_0_iff)

lemma curr_usage_NaN:
  "\<not> usage_is_number info \<Longrightarrow> curr_usage env info = NaN"
  by (simp add: usage_is_number_def curr_usage_def)

lemma fold_usage_numbers:
  assumes "\<forall>i \<in> set xs. usage_is_number i"
  shows "fold (\<lambda>info u. if double_gt u (curr_usage env info) then u else curr_usage env info)
           xs (Number a)
         = Number (fold (\<lambda>info u. max u (usage_fraction env info)) xs a)"
  using assms
proof (induction xs arbitrary: a)
  case Nil
  then show ?case by simp
next
  case (Cons x xs)
  have c: "curr_usage env x = Number (usage_fraction env x)"
    using Cons.prems by (simp add: curr_usage_number)
  have "(if double_gt (Number a) (curr_usage env x) then Number a else curr_usage env x)
        = Number (max a (usage_fraction env x))"
    by (auto simp: c double_gt_def max_def)
  then show ?case using Cons.IH [of "max a (usage_fraction env x)"] Cons.prems by simp
qed

lemma fold_max_Max:
  "fold (\<lambda>x u. max u (f x)) xs (a::'a::linorder) = Max (insert a (f ` set xs))"
proof (induction xs arbitrary: a)
  case Nil
  then show ?case by simp
next
  case (Cons x xs)
  have "Max (insert (max a (f x)) (f ` set xs)) = Max (insert a (insert (f x) (f ` set xs)))"
  proof (cases "xs = []")
    case True
    then show ?thesis by (simp add: max.commute)
  next
    case False
    then have ne: "f ` set xs \<noteq> {}" by simp
    have fin: "finite (f ` set xs)" by simp
    show ?thesis
      using ne fin by (simp add: max.assoc)
  qed
  then show ?case using Cons.IH [of "max a (f x)"] by simp
qed

lemma sweep_data_dir_trash_listing:
  assumes used: "info_is_used info"
    and pre: "SNAPSHOT_PREFIX env \<noteq> TRASH_PREFIX env"
    and dir: "disk (trash_path_of env info) = Some (Listing names)"
  shows "snd (snd (sweep_data_dir env cfg now info (usage, res, disk))) (trash_path_of env info)
         = Some (Listing (filter
              (\<lambda>n. \<not> sweep_removes env (trash_path_of env info) now (trash_expire_for env cfg info) n)
              names))"
proof -
  let ?sp = "info_path info @ SNAPSHOT_PREFIX env"
  let ?tp = "info_path info @ TRASH_PREFIX env"
  obtain r1 disk1 where d1: "do_sweep env ?sp now (snapshot_expire_time_sec cfg) disk = (r1, disk1)"
    by (cases "do_sweep env ?sp now (snapshot_expire_time_sec cfg) disk")
  have ne: "?tp \<noteq> ?sp" using pre by simp
  have "disk1 ?tp = disk ?tp"
    using do_sweep_other [OF ne, of env now "snapshot_expire_time_sec cfg" disk] d1 by simp
  then have l1: "disk1 ?tp = Some (Listing names)" using dir by (simp add: trash_path_of_def)
  obtain r2 disk2 where d2: "do_sweep env ?tp now (trash_expire_for env cfg info) disk1 = (r2, disk2)"
    by (cases "do_sweep env ?tp now (trash_expire_for env cfg info) disk1")
  have "disk2 ?tp = Some (Listing (filter
              (\<lambda>n. \<not> sweep_removes env ?tp now (trash_expire_for env cfg info) n) names))"
    using do_sweep_listing [where disk = disk1 and scan_root = "?tp" and names = names
        and env = env and now = now and expire = "trash_expire_for env cfg info", OF l1] d2
    by simp
  moreover have "snd (snd (sweep_data_dir env cfg now info (usage, res, disk))) = disk2"
    using used d1 d2 by (simp add: sweep_data_dir_def trash_expire_for_def Let_def)
  ultimately show ?thesis by (simp add: trash_path_of_def)
qed

text \<open>
  Claim C8, as amended. For a volume in use whose trash directory can be listed and is
  not also its snapshot directory: when the usage fraction exceeds the guard
  fraction, the trash directory is swept with
  the threshold 0, so that every entry whose name gives a time not after the sweep's
  own is removed, whatever its age, if its removal succeeds; when the usage does not
  exceed the guard fraction (it is at or below it, or it is no number), the
  threshold is the configured trash expiry, and an
  entry is removed only if its age is at least that threshold (an entry exactly as
  old as the threshold goes too). In both cases an entry whose name gives no time
  stays.
\<close>

theorem trash_emergency_reclamation:
  assumes used: "info_is_used info"
    and pre: "SNAPSHOT_PREFIX env \<noteq> TRASH_PREFIX env"
    and dir: "disk (trash_path_of env info) = Some (Listing names)"
  shows "(double_gt (curr_usage env info) (guard_space env cfg) \<longrightarrow>
            snd (snd (sweep_data_dir env cfg now info (usage, res, disk))) (trash_path_of env info)
              = Some (Listing (filter
                   (\<lambda>n. \<not> sweep_removes env (trash_path_of env info) now 0 n) names))
            \<and> (\<forall>n created. entry_created env n = Some created \<and> created \<le> now
                  \<and> remove_all_dir_ok env (trash_path_of env info @ ''/'' @ n)
                  \<longrightarrow> sweep_removes env (trash_path_of env info) now 0 n))
       \<and> (\<not> double_gt (curr_usage env info) (guard_space env cfg) \<longrightarrow>
            snd (snd (sweep_data_dir env cfg now info (usage, res, disk))) (trash_path_of env info)
              = Some (Listing (filter
                   (\<lambda>n. \<not> sweep_removes env (trash_path_of env info) now
                              (trash_file_expire_time_sec cfg) n) names))
            \<and> (\<forall>n. sweep_removes env (trash_path_of env info) now (trash_file_expire_time_sec cfg) n
                  \<longrightarrow> (\<exists>created. entry_created env n = Some created
                         \<and> now - created \<ge> int (trash_file_expire_time_sec cfg))))"
proof (intro conjI impI allI)
  assume g: "double_gt (curr_usage env info) (guard_space env cfg)"
  then have "trash_expire_for env cfg info = 0" by (simp add: trash_expire_for_def)
  then show "snd (snd (sweep_data_dir env cfg now info (usage, res, disk))) (trash_path_of env info)
              = Some (Listing (filter
                   (\<lambda>n. \<not> sweep_removes env (trash_path_of env info) now 0 n) names))"
    using sweep_data_dir_trash_listing [where disk = disk and names = names and info = info
        and env = env and cfg = cfg and now = now and usage = usage and res = res,
        OF used pre dir] by simp
next
  fix n created
  assume "entry_created env n = Some created \<and> created \<le> now
                  \<and> remove_all_dir_ok env (trash_path_of env info @ ''/'' @ n)"
  then show "sweep_removes env (trash_path_of env info) now 0 n"
    by (simp add: sweep_removes_def)
next
  assume g: "\<not> double_gt (curr_usage env info) (guard_space env cfg)"
  then have "trash_expire_for env cfg info = trash_file_expire_time_sec cfg"
    by (simp add: trash_expire_for_def)
  then show "snd (snd (sweep_data_dir env cfg now info (usage, res, disk))) (trash_path_of env info)
              = Some (Listing (filter
                   (\<lambda>n. \<not> sweep_removes env (trash_path_of env info) now
                              (trash_file_expire_time_sec cfg) n) names))"
    using sweep_data_dir_trash_listing [where disk = disk and names = names and info = info
        and env = env and cfg = cfg and now = now and usage = usage and res = res,
        OF used pre dir] by simp
next
  fix n
  assume "sweep_removes env (trash_path_of env info) now (trash_file_expire_time_sec cfg) n"
  then show "\<exists>created. entry_created env n = Some created
                         \<and> now - created \<ge> int (trash_file_expire_time_sec cfg)"
    by (auto simp: sweep_removes_def split: option.splits)
qed

text \<open>
  A trash directory with an entry made 10 s ago, one whose name gives no time and one
  made 300000 s ago, on a volume that is 95 percent full and on one that is half full.
\<close>

theorem trash_emergency_reclamation_witness:
  "curr_usage sweep_env_example (volume_info ''/disk1'' 100 5 True) = Number (0, 19 / 20)
   \<and> curr_usage sweep_env_example (volume_info ''/disk1'' 100 50 True) = Number (0, 1 / 2)
   \<and> guard_space sweep_env_example sweep_config_example = Number (0, 9 / 10)
   \<and> snd (snd (sweep_data_dir sweep_env_example sweep_config_example 1000000
         (volume_info ''/disk1'' 100 5 True)
         (Number (0, 0), OLAP_SUCCESS, trash_of_disk1 [''t10.1'', ''junk'', ''t300000.7''])))
     ''/disk1/trash'' = Some (Listing [''junk''])
   \<and> snd (snd (sweep_data_dir sweep_env_example sweep_config_example 1000000
         (volume_info ''/disk1'' 100 50 True)
         (Number (0, 0), OLAP_SUCCESS, trash_of_disk1 [''t10.1'', ''junk'', ''t300000.7''])))
     ''/disk1/trash'' = Some (Listing [''t10.1'', ''junk''])"
proof -
  have tp: "trash_path_of sweep_env_example (volume_info ''/disk1'' c a True) = ''/disk1/trash''" for c a
    by (simp add: trash_path_of_def sweep_env_example_def volume_info_def)
  have h1: "info_is_used (volume_info ''/disk1'' c a True)" for c a
    by (simp add: volume_info_def)
  have h3: "SNAPSHOT_PREFIX sweep_env_example \<noteq> TRASH_PREFIX sweep_env_example"
    by (simp add: sweep_env_example_def)
  have h4: "trash_of_disk1 names (trash_path_of sweep_env_example (volume_info ''/disk1'' c a True))
            = Some (Listing names)" for names c a
    by (simp add: tp trash_of_disk1_def)
  have c1: "curr_usage sweep_env_example (volume_info ''/disk1'' 100 5 True) = Number (0, 19 / 20)"
    by (simp add: curr_usage_def usage_fraction_def volume_info_def sweep_env_example_def)
  have c2: "curr_usage sweep_env_example (volume_info ''/disk1'' 100 50 True) = Number (0, 1 / 2)"
    by (simp add: curr_usage_def usage_fraction_def volume_info_def sweep_env_example_def)
  have g: "guard_space sweep_env_example sweep_config_example = Number (0, 9 / 10)"
    by (simp add: guard_space_def sweep_config_example_def sweep_env_example_def)
  have u1: "double_gt (curr_usage sweep_env_example (volume_info ''/disk1'' 100 5 True))
              (guard_space sweep_env_example sweep_config_example)"
    by (simp add: c1 g double_gt_def)
  have u2: "\<not> double_gt (curr_usage sweep_env_example (volume_info ''/disk1'' 100 50 True))
              (guard_space sweep_env_example sweep_config_example)"
    by (simp add: c2 g double_gt_def)
  have f1: "filter (\<lambda>n. \<not> sweep_removes sweep_env_example ''/disk1/trash'' 1000000 0 n)
              [''t10.1'', ''junk'', ''t300000.7''] = [''junk'']"
    by (simp add: sweep_removes_def entry_created_def sweep_env_example_def)
  have f2: "filter (\<lambda>n. \<not> sweep_removes sweep_env_example ''/disk1/trash'' 1000000
                (trash_file_expire_time_sec sweep_config_example) n)
              [''t10.1'', ''junk'', ''t300000.7''] = [''t10.1'', ''junk'']"
    by (simp add: sweep_removes_def entry_created_def sweep_env_example_def sweep_config_example_def)
  have r1: "snd (snd (sweep_data_dir sweep_env_example sweep_config_example 1000000
         (volume_info ''/disk1'' 100 5 True)
         (Number (0, 0), OLAP_SUCCESS, trash_of_disk1 [''t10.1'', ''junk'', ''t300000.7''])))
     ''/disk1/trash'' = Some (Listing [''junk''])"
    using trash_emergency_reclamation [where env = sweep_env_example
        and info = "volume_info ''/disk1'' 100 5 True" and cfg = sweep_config_example
        and now = 1000000 and usage = "Number (0, 0)" and res = OLAP_SUCCESS
        and disk = "trash_of_disk1 [''t10.1'', ''junk'', ''t300000.7'']"
        and names = "[''t10.1'', ''junk'', ''t300000.7'']", OF h1 h3 h4]
      u1 f1 tp
    by simp
  have r2: "snd (snd (sweep_data_dir sweep_env_example sweep_config_example 1000000
         (volume_info ''/disk1'' 100 50 True)
         (Number (0, 0), OLAP_SUCCESS, trash_of_disk1 [''t10.1'', ''junk'', ''t300000.7''])))
     ''/disk1/trash'' = Some (Listing [''t10.1'', ''junk''])"
    using trash_emergency_reclamation [where env = sweep_env_example
        and info = "volume_info ''/disk1'' 100 50 True" and cfg = sweep_config_example
        and now = 1000000 and usage = "Number (0, 0)" and res = OLAP_SUCCESS
        and disk = "trash_of_disk1 [''t10.1'', ''junk'', ''t300000.7'']"
        and names = "[''t10.1'', ''junk'', ''t300000.7'']", OF h1 h3 h4]
      u2 f2 tp
    by simp
  show ?thesis using c1 c2 g r1 r2 by (intro conjI)
qed

text \<open>
  Claim C8 as it is stated removes, at or below the guard fraction, only entries
  older than the trash expiry. An entry made exactly 259200 s before the sweep is not
  older than the expiry of 259200 s, and the sweep removes it: \<open>_do_sweep\<close> tests
  \<open>difftime(...) >= expire\<close>.
\<close>

theorem trash_expiry_boundary_counterexample:
  "curr_usage sweep_env_example (volume_info ''/disk1'' 100 50 True) = Number (0, 1 / 2)
   \<and> guard_space sweep_env_example sweep_config_example = Number (0, 9 / 10)
   \<and> \<not> double_gt (curr_usage sweep_env_example (volume_info ''/disk1'' 100 50 True))
            (guard_space sweep_env_example sweep_config_example)
   \<and> entry_created sweep_env_example ''t259200.3'' = Some (1000000 - 259200)
   \<and> \<not> (1000000 - (1000000 - 259200) > int (trash_file_expire_time_sec sweep_config_example))
   \<and> snd (snd (sweep_data_dir sweep_env_example sweep_config_example 1000000
         (volume_info ''/disk1'' 100 50 True)
         (Number (0, 0), OLAP_SUCCESS, trash_of_disk1 [''t259200.3''])))
     ''/disk1/trash'' = Some (Listing [])"
  by (simp add: curr_usage_def usage_fraction_def guard_space_def double_gt_def volume_info_def
      sweep_config_example_def entry_created_def sweep_env_example_def sweep_data_dir_def
      do_sweep_def trash_of_disk1_def Let_def)

text \<open>
  Claim C10, as amended. Once \<open>start_trash_sweep\<close> has its local time, and when the
  usage of every volume in use is a number (no volume in use has capacity 0 and 0
  bytes available), the value it leaves behind \<open>usage\<close> for an incoming number is the
  greatest of the incoming value and the usage fractions of the volumes in use;
  volumes not in use do not count. When the incoming value is not above the usage
  of some volume in use, or is no number and there is a volume in use, that is the
  maximum usage over the volumes in use. When \<open>localtime_r\<close> fails, the sweep returns
  \<open>OLAP_ERR_OS_ERROR\<close> and the value behind \<open>usage\<close> is the incoming one.
\<close>

theorem trash_sweep_usage_is_max:
  assumes "\<forall>i \<in> set (used_infos infos). usage_is_number i"
  shows "fst (snd (start_trash_sweep env cfg infos (Some local_now) (Number u) disk))
           = Number (Max (insert u (usage_fraction env ` set (used_infos infos))))
         \<and> ((\<exists>i \<in> set (used_infos infos). u \<le> usage_fraction env i)
              \<longrightarrow> fst (snd (start_trash_sweep env cfg infos (Some local_now) (Number u) disk))
                    = Number (Max (usage_fraction env ` set (used_infos infos))))
         \<and> (used_infos infos \<noteq> []
              \<longrightarrow> fst (snd (start_trash_sweep env cfg infos (Some local_now) NaN disk))
                    = Number (Max (usage_fraction env ` set (used_infos infos))))
         \<and> start_trash_sweep env cfg infos None usage disk = (OLAP_ERR_OS_ERROR, usage, disk)"
proof -
  let ?S = "usage_fraction env ` set (used_infos infos)"
  let ?step = "\<lambda>info u. if double_gt u (curr_usage env info) then u else curr_usage env info"
  have r: "fst (snd (start_trash_sweep env cfg infos (Some local_now) usage disk))
           = fold ?step (used_infos infos) usage" for usage
  proof -
    obtain v r d where f: "fold (sweep_data_dir env cfg local_now) infos (usage, OLAP_SUCCESS, disk) = (v, r, d)"
      by (cases "fold (sweep_data_dir env cfg local_now) infos (usage, OLAP_SUCCESS, disk)")
    have "v = fold ?step (used_infos infos) usage"
      using fold_sweep_data_dir_usage [of env cfg local_now infos usage OLAP_SUCCESS disk] f by simp
    then show ?thesis using f by (simp add: start_trash_sweep_def)
  qed
  have a: "fst (snd (start_trash_sweep env cfg infos (Some local_now) (Number u) disk))
           = Number (Max (insert u ?S))"
    by (simp add: r fold_usage_numbers [OF assms] fold_max_Max)
  have b: "Max (insert u ?S) = Max ?S" if "\<exists>i \<in> set (used_infos infos). u \<le> usage_fraction env i"
  proof -
    from that obtain i where i: "i \<in> set (used_infos infos)" "u \<le> usage_fraction env i" by blast
    have fin: "finite ?S" by simp
    have ne: "?S \<noteq> {}" using i by auto
    have "usage_fraction env i \<in> ?S" using i(1) by (rule imageI)
    with fin have "usage_fraction env i \<le> Max ?S" by (rule Max_ge)
    with i(2) have "u \<le> Max ?S" by (rule order_trans)
    then show ?thesis using fin ne by (simp add: max_absorb2)
  qed
  have c: "fst (snd (start_trash_sweep env cfg infos (Some local_now) NaN disk)) = Number (Max ?S)"
    if ne: "used_infos infos \<noteq> []"
  proof -
    obtain x xs where xs: "used_infos infos = x # xs" using ne by (cases "used_infos infos") simp_all
    have nx: "usage_is_number x" and nxs: "\<forall>i \<in> set xs. usage_is_number i"
      using assms xs by simp_all
    have "fold ?step (x # xs) NaN = fold ?step xs (Number (usage_fraction env x))"
      by (simp add: curr_usage_number [OF nx] double_gt_def)
    also have "\<dots> = Number (Max (insert (usage_fraction env x) (usage_fraction env ` set xs)))"
      by (simp add: fold_usage_numbers [OF nxs] fold_max_Max)
    finally show ?thesis by (simp add: r xs)
  qed
  have d: "start_trash_sweep env cfg infos None usage disk = (OLAP_ERR_OS_ERROR, usage, disk)"
    by (simp add: start_trash_sweep_def)
  show ?thesis using a b c d by simp
qed

text \<open>
  Volumes 50 and 80 percent full and an unused one between them, from usage 0.
\<close>

theorem trash_sweep_usage_is_max_witness:
  "fst (snd (start_trash_sweep sweep_env_example sweep_config_example
        [volume_info ''/disk1'' 100 50 True, volume_info ''/disk2'' 1 0 False,
         volume_info ''/disk3'' 100 20 True]
        (Some 1000000) (Number (0, 0)) Map.empty)) = Number (0, 4 / 5)"
proof -
  let ?infos = "[volume_info ''/disk1'' 100 50 True, volume_info ''/disk2'' 1 0 False,
         volume_info ''/disk3'' 100 20 True]"
  have u: "used_infos ?infos = [volume_info ''/disk1'' 100 50 True, volume_info ''/disk3'' 100 20 True]"
    by (simp add: used_infos_def volume_info_def)
  have h: "\<forall>i \<in> set (used_infos ?infos). usage_is_number i"
    by (simp add: u) (simp add: volume_info_def usage_is_number_def)
  have f1: "usage_fraction sweep_env_example (volume_info ''/disk1'' 100 50 True) = (0, 1 / 2)"
    by (simp add: volume_info_def usage_fraction_def sweep_env_example_def)
  have f3: "usage_fraction sweep_env_example (volume_info ''/disk3'' 100 20 True) = (0, 4 / 5)"
    by (simp add: volume_info_def usage_fraction_def sweep_env_example_def)
  have e: "\<exists>i \<in> set (used_infos ?infos). (0, 0) \<le> usage_fraction sweep_env_example i"
    by (simp add: u f1)
  have m: "Max (usage_fraction sweep_env_example ` set (used_infos ?infos)) = (0, 4 / 5)"
    by (simp add: u f1 f3)
  have "(\<exists>i \<in> set (used_infos ?infos). (0, 0) \<le> usage_fraction sweep_env_example i)
        \<longrightarrow> fst (snd (start_trash_sweep sweep_env_example sweep_config_example ?infos
                        (Some 1000000) (Number (0, 0)) Map.empty))
              = Number (Max (usage_fraction sweep_env_example ` set (used_infos ?infos)))"
    using trash_sweep_usage_is_max [OF h, of sweep_env_example sweep_config_example 1000000
        "(0, 0)" Map.empty]
    by (rule conjunct2 [THEN conjunct1])
  then show ?thesis using e by (simp only: m)
qed

text \<open>
  Claim C10 as it is stated has the sweep write the maximum usage over the volumes in
  use. A volume in use that reports capacity 0 and 0 bytes available has the usage
  0 / 0, a NaN; every comparison with it is false, so it replaces the running maximum
  and is replaced by the usage of the next volume. With volumes 80 percent full, of
  capacity 0 and 50 percent full, in that order, the sweep leaves 0.5, less than the
  usage of the first volume. And when \<open>localtime_r\<close> fails, the sweep returns before
  the loop and writes nothing.
\<close>

theorem trash_sweep_usage_counterexample:
  "used_infos [volume_info ''/disk1'' 100 20 True, volume_info ''/disk2'' 0 0 True,
               volume_info ''/disk3'' 100 50 True]
     = [volume_info ''/disk1'' 100 20 True, volume_info ''/disk2'' 0 0 True,
        volume_info ''/disk3'' 100 50 True]
   \<and> curr_usage sweep_env_example (volume_info ''/disk1'' 100 20 True) = Number (0, 4 / 5)
   \<and> curr_usage sweep_env_example (volume_info ''/disk2'' 0 0 True) = NaN
   \<and> curr_usage sweep_env_example (volume_info ''/disk3'' 100 50 True) = Number (0, 1 / 2)
   \<and> fst (snd (start_trash_sweep sweep_env_example sweep_config_example
          [volume_info ''/disk1'' 100 20 True, volume_info ''/disk2'' 0 0 True,
           volume_info ''/disk3'' 100 50 True]
          (Some 1000000) (Number (0, 0)) Map.empty)) = Number (0, 1 / 2)
   \<and> double_gt (curr_usage sweep_env_example (volume_info ''/disk1'' 100 20 True))
        (Number (0, 1 / 2))
   \<and> start_trash_sweep sweep_env_example sweep_config_example
          [volume_info ''/disk1'' 100 20 True] None (Number (0, 0)) Map.empty
       = (OLAP_ERR_OS_ERROR, Number (0, 0), Map.empty)"
  by (simp add: used_infos_def curr_usage_def usage_fraction_def double_gt_def volume_info_def
      sweep_config_example_def sweep_env_example_def start_trash_sweep_def sweep_data_dir_def
      do_sweep_def guard_space_def Let_def)

end
